theory Spec2Isabelle
  imports Main
begin

section \<open>The serve-code encoder of the controller\<close>

subsection \<open>Input snapshots\<close>

text \<open>
  A \<^verbatim>\<open>PikaUserInput\<close> carries the three numbers the controller copies from a keyboard
  on every frame. JavaScript numbers that only ever hold small integers are modelled
  as \<^typ>\<open>int\<close>.
\<close>

record PikaUserInput =
  xDirection :: int
  yDirection :: int
  powerHit :: int

text \<open>
  The value returned by \<^verbatim>\<open>encodeUserInput\<close>: one of the string literals of its body,
  or JavaScript's \<^verbatim>\<open>undefined\<close> when control falls off the end of the function.
\<close>

datatype token = Str string | Undefined

text \<open>
  \<^verbatim>\<open>encodeUserInput(userInput, playerNum)\<close>: the chain of comparisons in source order.
  Every value of \<^verbatim>\<open>playerNum\<close> other than 1 takes the second half.
\<close>

definition encodeUserInput :: "PikaUserInput \<Rightarrow> int \<Rightarrow> token" where
  "encodeUserInput userInput playerNum =
    (if playerNum = 1 then
       (if powerHit userInput = 1 then
          (if xDirection userInput = -1 \<and> yDirection userInput = -1 then Str ''-ULH/''
           else if xDirection userInput = -1 \<and> yDirection userInput = 0 then Str ''-LH/''
           else if xDirection userInput = -1 \<and> yDirection userInput = 1 then Str ''-DLH/''
           else if xDirection userInput = 0 \<and> yDirection userInput = -1 then Str ''-UH/''
           else if xDirection userInput = 0 \<and> yDirection userInput = 0 then Str ''-H/''
           else if xDirection userInput = 0 \<and> yDirection userInput = 1 then Str ''-DH/''
           else if xDirection userInput = 1 \<and> yDirection userInput = -1 then Str ''-URH/''
           else if xDirection userInput = 1 \<and> yDirection userInput = 0 then Str ''-RH/''
           else if xDirection userInput = 1 \<and> yDirection userInput = 1 then Str ''-DRH/''
           else Undefined)
        else if powerHit userInput = 0 then
          (if xDirection userInput = -1 \<and> yDirection userInput = -1 then Str ''-UL/''
           else if xDirection userInput = -1 \<and> yDirection userInput = 0 then Str ''-L/''
           else if xDirection userInput = -1 \<and> yDirection userInput = 1 then Str ''-DL/''
           else if xDirection userInput = 0 \<and> yDirection userInput = -1 then Str ''-U/''
           else if xDirection userInput = 0 \<and> yDirection userInput = 0 then Str ''-/''
           else if xDirection userInput = 0 \<and> yDirection userInput = 1 then Str ''-D/''
           else if xDirection userInput = 1 \<and> yDirection userInput = -1 then Str ''-UR/''
           else if xDirection userInput = 1 \<and> yDirection userInput = 0 then Str ''-R/''
           else if xDirection userInput = 1 \<and> yDirection userInput = 1 then Str ''-DR/''
           else Undefined)
        else Undefined)
     else
       (if powerHit userInput = 1 then
          (if xDirection userInput = -1 \<and> yDirection userInput = -1 then Str ''-/ULH''
           else if xDirection userInput = -1 \<and> yDirection userInput = 0 then Str ''-/LH''
           else if xDirection userInput = -1 \<and> yDirection userInput = 1 then Str ''-/DLH''
           else if xDirection userInput = 0 \<and> yDirection userInput = -1 then Str ''-/UH''
           else if xDirection userInput = 0 \<and> yDirection userInput = 0 then Str ''-/H''
           else if xDirection userInput = 0 \<and> yDirection userInput = 1 then Str ''-/DH''
           else if xDirection userInput = 1 \<and> yDirection userInput = -1 then Str ''-/URH''
           else if xDirection userInput = 1 \<and> yDirection userInput = 0 then Str ''-/RH''
           else if xDirection userInput = 1 \<and> yDirection userInput = 1 then Str ''-/DRH''
           else Undefined)
        else if powerHit userInput = 0 then
          (if xDirection userInput = -1 \<and> yDirection userInput = -1 then Str ''-/UL''
           else if xDirection userInput = -1 \<and> yDirection userInput = 0 then Str ''-/L''
           else if xDirection userInput = -1 \<and> yDirection userInput = 1 then Str ''-/DL''
           else if xDirection userInput = 0 \<and> yDirection userInput = -1 then Str ''-/U''
           else if xDirection userInput = 0 \<and> yDirection userInput = 0 then Str ''-/''
           else if xDirection userInput = 0 \<and> yDirection userInput = 1 then Str ''-/D''
           else if xDirection userInput = 1 \<and> yDirection userInput = -1 then Str ''-/UR''
           else if xDirection userInput = 1 \<and> yDirection userInput = 0 then Str ''-/R''
           else if xDirection userInput = 1 \<and> yDirection userInput = 1 then Str ''-/DR''
           else Undefined)
        else Undefined))"

text \<open>\<^verbatim>\<open>encodeActList(code, playerNum)\<close>: one token per logged snapshot, in order.\<close>

definition encodeActList :: "PikaUserInput list \<Rightarrow> int \<Rightarrow> token list" where
  "encodeActList code playerNum = map (\<lambda>userInput. encodeUserInput userInput playerNum) code"

subsection \<open>Run-length compression\<close>

text \<open>
  The decimal text JavaScript gives a non-negative integer below \<^verbatim>\<open>1e21\<close> when it is
  concatenated to a string (an array holds fewer than \<^verbatim>\<open>2^32\<close> elements, so every
  count is in that range).
\<close>

definition digitChar :: "nat \<Rightarrow> char" where
  "digitChar d = ''0123456789'' ! d"

fun Number_toString :: "nat \<Rightarrow> string" where
  "Number_toString n =
    (if n < 10 then [digitChar n] else Number_toString (n div 10) @ [digitChar (n mod 10)])"

declare Number_toString.simps [simp del]

text \<open>
  The expression \<^verbatim>\<open>current + count\<close>: string concatenation when \<^verbatim>\<open>current\<close> is a string;
  \<^verbatim>\<open>undefined + count\<close> is the number \<^verbatim>\<open>NaN\<close>, which \<^verbatim>\<open>result +=\<close> then renders as text.
\<close>

fun plusCount :: "token \<Rightarrow> nat \<Rightarrow> string" where
  "plusCount (Str s) count = s @ Number_toString count"
| "plusCount Undefined count = ''NaN''"

text \<open>
  The \<^verbatim>\<open>for\<close> loop of \<^verbatim>\<open>concatListAsString\<close> over \<^verbatim>\<open>arr[1], arr[2], ...\<close>, with its three
  variables, followed by the statement after the loop.
\<close>

fun concatLoop :: "token list \<Rightarrow> string \<Rightarrow> token \<Rightarrow> nat \<Rightarrow> string" where
  "concatLoop [] result current count = result @ plusCount current count"
| "concatLoop (a # arr) result current count =
    (if a = current then concatLoop arr result current (count + 1)
     else concatLoop arr (result @ plusCount current count) a 1)"

definition concatListAsString :: "token list \<Rightarrow> string" where
  "concatListAsString arr = (case arr of [] \<Rightarrow> [] | a # rest \<Rightarrow> concatLoop rest [] a 1)"

text \<open>
  The block of \<^verbatim>\<open>round\<close> that runs when the ball touches the ground computes the text
  handed to \<^verbatim>\<open>logToNotepad\<close>: the side is 2 when player 1 is the computer and 1
  otherwise, and \<^verbatim>\<open>MsgOutput.slice(1)\<close> drops the first character.
\<close>

definition notepadMessage :: "PikaUserInput list \<Rightarrow> bool \<Rightarrow> string" where
  "notepadMessage actList player1IsComputer =
    (let CodeOutput = (if player1IsComputer then encodeActList actList 2 else encodeActList actList 1);
         MsgOutput = concatListAsString CodeOutput
     in drop 1 MsgOutput)"

text \<open>
  \<^verbatim>\<open>logToNotepad(message)\<close> replaces the text of the element \<^verbatim>\<open>code-viewer-output\<close>
  when the page has one (\<open>Some\<close> its current text) and does nothing otherwise.
\<close>

definition logToNotepad :: "string \<Rightarrow> string option \<Rightarrow> string option" where
  "logToNotepad message target = (case target of None \<Rightarrow> None | Some _ \<Rightarrow> Some message)"

section \<open>Keyboards\<close>

text \<open>A \<^verbatim>\<open>Key\<close>: the \<^verbatim>\<open>KeyboardEvent.code\<close> it listens to and whether it is held.\<close>

record Key =
  keyValue :: string
  isDown :: bool
  isUp :: bool

definition Key_new :: "string \<Rightarrow> Key" where
  "Key_new v = \<lparr>keyValue = v, isDown = False, isUp = True\<rparr>"

definition downHandler :: "string \<Rightarrow> Key \<Rightarrow> Key" where
  "downHandler code k = (if code = keyValue k then k\<lparr>isDown := True, isUp := False\<rparr> else k)"

definition upHandler :: "string \<Rightarrow> Key \<Rightarrow> Key" where
  "upHandler code k = (if code = keyValue k then k\<lparr>isDown := False, isUp := True\<rparr> else k)"

text \<open>
  \<^verbatim>\<open>PikaKeyboard extends PikaUserInput\<close>. The array \<^verbatim>\<open>keys\<close> always has the five elements
  the constructor puts there (left, right, up, down, power hit); they are the fields
  \<open>keys0\<close> to \<open>keys4\<close>.
\<close>

record PikaKeyboard = PikaUserInput +
  powerHitKeyIsDownPrevious :: bool
  keys0 :: Key
  keys1 :: Key
  keys2 :: Key
  keys3 :: Key
  keys4 :: Key
  extraKeys :: "Key list"

text \<open>
  The constructor. The fields set by \<^verbatim>\<open>super()\<close> come from \<^verbatim>\<open>physics.js\<close>, which is
  not among the sources, so the freshly built \<^verbatim>\<open>PikaUserInput\<close> is a parameter. The sixth
  argument \<^verbatim>\<open>downRight\<close> is never read.
\<close>

definition PikaKeyboard_new ::
  "PikaUserInput \<Rightarrow> string \<Rightarrow> string \<Rightarrow> string \<Rightarrow> string \<Rightarrow> string \<Rightarrow> string list \<Rightarrow> PikaKeyboard" where
  "PikaKeyboard_new super left right up down powerHitKey extra =
    \<lparr>xDirection = xDirection super, yDirection = yDirection super, powerHit = powerHit super,
     powerHitKeyIsDownPrevious = False,
     keys0 = Key_new left, keys1 = Key_new right, keys2 = Key_new up, keys3 = Key_new down,
     keys4 = Key_new powerHitKey, extraKeys = map Key_new extra\<rparr>"

definition powerHitPressed :: "PikaKeyboard \<Rightarrow> bool" where
  "powerHitPressed kb \<longleftrightarrow>
    isDown (keys4 kb) \<or> list_ex (\<lambda>key. keyValue key = ''KeyZ'' \<and> isDown key) (extraKeys kb)"

definition getInput :: "PikaKeyboard \<Rightarrow> PikaKeyboard" where
  "getInput kb =
    (let leftPressed = (isDown (keys0 kb) \<or> list_ex (\<lambda>key. keyValue key = ''KeyD'' \<and> isDown key) (extraKeys kb));
         rightPressed = (isDown (keys1 kb) \<or> list_ex (\<lambda>key. keyValue key = ''KeyG'' \<and> isDown key) (extraKeys kb));
         upPressed = (isDown (keys2 kb) \<or> list_ex (\<lambda>key. keyValue key = ''KeyR'' \<and> isDown key) (extraKeys kb));
         downPressed = (isDown (keys3 kb) \<or>
            list_ex (\<lambda>key. isDown key \<and> keyValue key \<in> set [''KeyV'', ''KeyF'', ''ArrowDown'']) (extraKeys kb));
         isDownNow = powerHitPressed kb
     in kb\<lparr>xDirection := (if leftPressed then -1 else if rightPressed then 1 else 0),
           yDirection := (if upPressed then -1 else if downPressed then 1 else 0),
           powerHit := (if \<not> powerHitKeyIsDownPrevious kb \<and> isDownNow then 1 else 0),
           powerHitKeyIsDownPrevious := isDownNow\<rparr>)"

text \<open>The window's key events reach every \<^verbatim>\<open>Key\<close> of a keyboard.\<close>

definition keyboardKeyDown :: "string \<Rightarrow> PikaKeyboard \<Rightarrow> PikaKeyboard" where
  "keyboardKeyDown code kb =
    kb\<lparr>keys0 := downHandler code (keys0 kb), keys1 := downHandler code (keys1 kb),
       keys2 := downHandler code (keys2 kb), keys3 := downHandler code (keys3 kb),
       keys4 := downHandler code (keys4 kb), extraKeys := map (downHandler code) (extraKeys kb)\<rparr>"

definition keyboardKeyUp :: "string \<Rightarrow> PikaKeyboard \<Rightarrow> PikaKeyboard" where
  "keyboardKeyUp code kb =
    kb\<lparr>keys0 := upHandler code (keys0 kb), keys1 := upHandler code (keys1 kb),
       keys2 := upHandler code (keys2 kb), keys3 := upHandler code (keys3 kb),
       keys4 := upHandler code (keys4 kb), extraKeys := map (upHandler code) (extraKeys kb)\<rparr>"

text \<open>
  What one keyboard reports over a sequence of frames. The key states of a frame are the
  six key fields as the frame finds them; \<open>holdKeys\<close> puts the keyboard's keys in that
  state, and \<^verbatim>\<open>getInput\<close> is then called once per frame.
\<close>

type_synonym keyStates = "Key \<times> Key \<times> Key \<times> Key \<times> Key \<times> Key list"

fun holdKeys :: "PikaKeyboard \<Rightarrow> keyStates \<Rightarrow> PikaKeyboard" where
  "holdKeys kb (k0, k1, k2, k3, k4, ex) =
    kb\<lparr>keys0 := k0, keys1 := k1, keys2 := k2, keys3 := k3, keys4 := k4, extraKeys := ex\<rparr>"

fun pollKeyboard :: "PikaKeyboard \<Rightarrow> keyStates list \<Rightarrow> PikaKeyboard list" where
  "pollKeyboard kb [] = []"
| "pollKeyboard kb (ks # frames) =
    (let kb' = getInput (holdKeys kb ks) in kb' # pollKeyboard kb' frames)"

section \<open>The controller\<close>

subsection \<open>State\<close>

text \<open>
  Of the physics objects (\<^verbatim>\<open>physics.js\<close> is not among the sources) the controller reads
  and writes the three flags of each player, the ball's \<^verbatim>\<open>x\<close> and the ball's
  \<^verbatim>\<open>punchEffectX\<close>.
\<close>

record Player =
  isComputer :: bool
  isWinner :: bool
  gameEnded :: bool

record Ball =
  ball_x :: int
  punchEffectX :: int

text \<open>
  What \<^verbatim>\<open>physics.runEngineForNextFrame(this.keyboardArray)\<close> does in one frame is a
  parameter of the frame: a function of the two keyboards it is given, to the value it
  returns and the ball it leaves behind. The engine is taken to leave the three player
  flags and the controller's own fields alone; whatever it writes into a keyboard is
  overwritten by \<^verbatim>\<open>getInput\<close> in the next frame before any game state reads it.
\<close>

record EngineResult =
  returned :: bool
  ballAfter :: Ball

type_synonym Engine = "PikaKeyboard \<Rightarrow> PikaKeyboard \<Rightarrow> EngineResult"

datatype GameState =
  Intro | Menu | AfterMenuSelection | BeforeStartOfNewGame | StartOfNewGame
  | Round | AfterEndOfRound | BeforeStartOfNextRound

text \<open>
  The fields of \<^verbatim>\<open>PikachuVolleyball\<close> that its game states use, without the views and the
  audio; \<^verbatim>\<open>physics.player1\<close>, \<^verbatim>\<open>physics.player2\<close> and \<^verbatim>\<open>physics.ball\<close>; the two elements of
  \<^verbatim>\<open>keyboardArray\<close> and of \<^verbatim>\<open>scores\<close>; and, beside them, what the module shares with its
  surroundings: the global \<^verbatim>\<open>ActList\<close>, the text of the page element
  \<^verbatim>\<open>code-viewer-output\<close> (\<open>None\<close> when the page has no such element) and the lists
  written by \<^verbatim>\<open>console.log(ActList)\<close>.
\<close>

record PikachuVolleyball =
  player1 :: Player
  player2 :: Player
  ball :: Ball
  keyboardArray0 :: PikaKeyboard
  keyboardArray1 :: PikaKeyboard
  normalFPS :: nat
  slowMotionFPS :: nat
  slowMotionFramesLeft :: nat
  slowMotionNumOfSkippedFrames :: nat
  selectedWithWho :: nat
  scores0 :: int
  scores1 :: int
  winningScore :: int
  gameEnded :: bool
  roundEnded :: bool
  isPlayer2Serve :: bool
  frameCounter :: nat
  noInputFrameCounter :: nat
  paused :: bool
  isPracticeMode :: bool
  state :: GameState
  ActList :: "PikaUserInput list"
  codeViewerOutput :: "string option"
  consoleLog :: "PikaUserInput list list"

text \<open>
  The constructor, with \<^verbatim>\<open>const ActList = []\<close>. The objects made by \<^verbatim>\<open>new PikaPhysics(true,
  true)\<close> and by \<^verbatim>\<open>super()\<close> in the keyboards, and the page, are parameters.
\<close>

definition PikachuVolleyball_new ::
  "Player \<Rightarrow> Player \<Rightarrow> Ball \<Rightarrow> PikaUserInput \<Rightarrow> string option \<Rightarrow> PikachuVolleyball" where
  "PikachuVolleyball_new p1 p2 b super page =
    \<lparr>player1 = p1, player2 = p2, ball = b,
     keyboardArray0 = PikaKeyboard_new super ''KeyD'' ''KeyG'' ''KeyR'' ''KeyV'' ''KeyZ'' [],
     keyboardArray1 =
       PikaKeyboard_new super ''ArrowLeft'' ''ArrowRight'' ''ArrowUp'' ''ArrowDown'' ''Enter'' [],
     normalFPS = 25, slowMotionFPS = 5,
     slowMotionFramesLeft = 0, slowMotionNumOfSkippedFrames = 0,
     selectedWithWho = 0, scores0 = 0, scores1 = 0, winningScore = 15,
     gameEnded = False, roundEnded = False, isPlayer2Serve = False,
     frameCounter = 0, noInputFrameCounter = 0, paused = False, isPracticeMode = False,
     state = Intro, ActList = [], codeViewerOutput = page, consoleLog = []\<rparr>"

definition SLOW_MOTION_FRAMES_NUM :: nat where
  "SLOW_MOTION_FRAMES_NUM = 6"

text \<open>The entries of \<^verbatim>\<open>frameTotal\<close>.\<close>

definition frameTotal_intro :: nat where "frameTotal_intro = 165"
definition frameTotal_afterMenuSelection :: nat where "frameTotal_afterMenuSelection = 15"
definition frameTotal_beforeStartOfNewGame :: nat where "frameTotal_beforeStartOfNewGame = 15"
definition frameTotal_startOfNewGame :: nat where "frameTotal_startOfNewGame = 71"
definition frameTotal_afterEndOfRound :: nat where "frameTotal_afterEndOfRound = 5"
definition frameTotal_beforeStartOfNextRound :: nat where "frameTotal_beforeStartOfNextRound = 30"
definition frameTotal_gameEnd :: nat where "frameTotal_gameEnd = 211"

subsection \<open>Game states before the round\<close>

text \<open>
  The test \<^verbatim>\<open>keyboardArray[0].powerHit === 1 || keyboardArray[1].powerHit === 1\<close>, which
  several game states make.
\<close>

definition pressedPowerHit :: "PikachuVolleyball \<Rightarrow> bool" where
  "pressedPowerHit g \<longleftrightarrow> powerHit (keyboardArray0 g) = 1 \<or> powerHit (keyboardArray1 g) = 1"

definition intro :: "PikachuVolleyball \<Rightarrow> PikachuVolleyball" where
  "intro g =
    (let g1 = g\<lparr>frameCounter := frameCounter g + 1\<rparr>;
         g2 = (if pressedPowerHit g1 then g1\<lparr>frameCounter := 0, state := Menu\<rparr> else g1)
     in if frameTotal_intro \<le> frameCounter g2 then g2\<lparr>frameCounter := 0, state := Menu\<rparr> else g2)"

definition menu :: "PikachuVolleyball \<Rightarrow> PikachuVolleyball" where
  "menu g =
    (let g1 = (if frameCounter g = 0 then g\<lparr>selectedWithWho := 0\<rparr> else g);
         g2 = g1\<lparr>frameCounter := frameCounter g1 + 1\<rparr>
     in if frameCounter g2 < 71 \<and> pressedPowerHit g2 then g2\<lparr>frameCounter := 71\<rparr>
        else if frameCounter g2 \<le> 71 then g2
        else
          (let g3 =
             (if (yDirection (keyboardArray0 g2) = -1 \<or> yDirection (keyboardArray1 g2) = -1)
                  \<and> selectedWithWho g2 = 1
              then g2\<lparr>noInputFrameCounter := 0, selectedWithWho := 0\<rparr>
              else if (yDirection (keyboardArray0 g2) = 1 \<or> yDirection (keyboardArray1 g2) = 1)
                  \<and> selectedWithWho g2 = 0
              then g2\<lparr>noInputFrameCounter := 0, selectedWithWho := 1\<rparr>
              else g2\<lparr>noInputFrameCounter := noInputFrameCounter g2 + 1\<rparr>)
           in if pressedPowerHit g3 then
                (let g4 =
                   (if selectedWithWho g3 = 1 then
                      g3\<lparr>player1 := (player1 g3)\<lparr>isComputer := False\<rparr>,
                         player2 := (player2 g3)\<lparr>isComputer := False\<rparr>\<rparr>
                    else if powerHit (keyboardArray0 g3) = 1 then
                      g3\<lparr>player1 := (player1 g3)\<lparr>isComputer := False\<rparr>,
                         player2 := (player2 g3)\<lparr>isComputer := True\<rparr>\<rparr>
                    else if powerHit (keyboardArray1 g3) = 1 then
                      g3\<lparr>player1 := (player1 g3)\<lparr>isComputer := True\<rparr>,
                         player2 := (player2 g3)\<lparr>isComputer := False\<rparr>\<rparr>
                    else g3)
                 in g4\<lparr>frameCounter := 0, noInputFrameCounter := 0, state := AfterMenuSelection\<rparr>)
              else g3))"

definition afterMenuSelection :: "PikachuVolleyball \<Rightarrow> PikachuVolleyball" where
  "afterMenuSelection g =
    (let g1 = g\<lparr>frameCounter := frameCounter g + 1\<rparr>
     in if frameTotal_afterMenuSelection \<le> frameCounter g1
        then g1\<lparr>frameCounter := 0, state := BeforeStartOfNewGame\<rparr> else g1)"

definition beforeStartOfNewGame :: "PikachuVolleyball \<Rightarrow> PikachuVolleyball" where
  "beforeStartOfNewGame g =
    (let g1 = g\<lparr>frameCounter := frameCounter g + 1\<rparr>
     in if frameTotal_beforeStartOfNewGame \<le> frameCounter g1
        then g1\<lparr>frameCounter := 0, state := StartOfNewGame\<rparr> else g1)"

text \<open>
  After \<^verbatim>\<open>ball.initializeForNewRound(isPlayer2Serve)\<close> (in \<^verbatim>\<open>physics.js\<close>) the controller
  itself assigns \<^verbatim>\<open>ball.x\<close>, from \<^verbatim>\<open>player1.isComputer\<close>.
\<close>

definition placeBall :: "PikachuVolleyball \<Rightarrow> PikachuVolleyball" where
  "placeBall g = g\<lparr>ball := (ball g)\<lparr>ball_x := (if isComputer (player1 g) then 376 else 56)\<rparr>\<rparr>"

definition startOfNewGame :: "PikachuVolleyball \<Rightarrow> PikachuVolleyball" where
  "startOfNewGame g =
    (let g1 =
       (if frameCounter g = 0 then
          placeBall (g\<lparr>gameEnded := False, roundEnded := False, isPlayer2Serve := False,
                       player1 := (player1 g)\<lparr>Player.gameEnded := False, isWinner := False\<rparr>,
                       player2 := (player2 g)\<lparr>Player.gameEnded := False, isWinner := False\<rparr>,
                       scores0 := 0, scores1 := 0\<rparr>)
        else g);
         g2 = g1\<lparr>frameCounter := frameCounter g1 + 1\<rparr>
     in if frameTotal_startOfNewGame \<le> frameCounter g2
        then g2\<lparr>frameCounter := 0, state := Round\<rparr> else g2)"

subsection \<open>The round\<close>

text \<open>JavaScript's \<^verbatim>\<open>a || b\<close> on two numbers that are integers: \<^verbatim>\<open>a\<close> unless it is zero.\<close>

definition logicalOr :: "int \<Rightarrow> int \<Rightarrow> int" where
  "logicalOr a b = (if a \<noteq> 0 then a else b)"

text \<open>The two \<^verbatim>\<open>if\<close> blocks of \<^verbatim>\<open>round\<close> that overwrite one keyboard with both keyboards.\<close>

definition mergeKeyboards :: "PikachuVolleyball \<Rightarrow> PikachuVolleyball" where
  "mergeKeyboards g =
    (let g1 =
       (if isComputer (player1 g) then
          g\<lparr>keyboardArray1 := (keyboardArray1 g)
             \<lparr>xDirection := logicalOr (xDirection (keyboardArray0 g)) (xDirection (keyboardArray1 g)),
              yDirection := logicalOr (yDirection (keyboardArray0 g)) (yDirection (keyboardArray1 g)),
              powerHit := logicalOr (powerHit (keyboardArray0 g)) (powerHit (keyboardArray1 g))\<rparr>\<rparr>
        else g)
     in if isComputer (player2 g1) then
          g1\<lparr>keyboardArray0 := (keyboardArray0 g1)
             \<lparr>xDirection := logicalOr (xDirection (keyboardArray0 g1)) (xDirection (keyboardArray1 g1)),
              yDirection := logicalOr (yDirection (keyboardArray0 g1)) (yDirection (keyboardArray1 g1)),
              powerHit := logicalOr (powerHit (keyboardArray0 g1)) (powerHit (keyboardArray1 g1))\<rparr>\<rparr>
        else g1)"

text \<open>The two fresh \<^verbatim>\<open>PikaUserInput\<close> objects, and the \<^verbatim>\<open>ActList.push\<close> of one of them.\<close>

definition player1Input :: "PikachuVolleyball \<Rightarrow> PikaUserInput" where
  "player1Input g =
    \<lparr>xDirection = xDirection (keyboardArray0 g), yDirection = yDirection (keyboardArray0 g),
     powerHit = powerHit (keyboardArray0 g)\<rparr>"

definition player2Input :: "PikachuVolleyball \<Rightarrow> PikaUserInput" where
  "player2Input g =
    \<lparr>xDirection = xDirection (keyboardArray1 g), yDirection = yDirection (keyboardArray1 g),
     powerHit = powerHit (keyboardArray1 g)\<rparr>"

definition recordInput :: "PikachuVolleyball \<Rightarrow> PikachuVolleyball" where
  "recordInput g =
    (if isComputer (player1 g) then g\<lparr>ActList := ActList g @ [player2Input g]\<rparr>
     else g\<lparr>ActList := ActList g @ [player1Input g]\<rparr>)"

text \<open>
  The block run when the ball touches the ground: \<^verbatim>\<open>console.log(ActList)\<close>, the encoding,
  \<^verbatim>\<open>logToNotepad\<close>, and \<^verbatim>\<open>ActList.length = 0\<close>.
\<close>

definition flushActList :: "PikachuVolleyball \<Rightarrow> PikachuVolleyball" where
  "flushActList g =
    g\<lparr>consoleLog := consoleLog g @ [ActList g],
      codeViewerOutput :=
        logToNotepad (notepadMessage (ActList g) (isComputer (player1 g))) (codeViewerOutput g),
      ActList := []\<rparr>"

text \<open>
  The block guarded by \<^verbatim>\<open>isBallTouchingGround && _isPracticeMode === false && roundEnded
  === false && gameEnded === false\<close>. The constant \<^verbatim>\<open>GROUND_HALF_WIDTH\<close> is imported from
  \<^verbatim>\<open>physics.js\<close> and is a parameter here.
\<close>

definition endOfRound :: "int \<Rightarrow> PikachuVolleyball \<Rightarrow> PikachuVolleyball" where
  "endOfRound GROUND_HALF_WIDTH g =
    (let g1 =
       (if punchEffectX (ball g) < GROUND_HALF_WIDTH then
          (let a = g\<lparr>isPlayer2Serve := True\<rparr>
           in if winningScore a \<le> scores1 a then
                a\<lparr>gameEnded := True,
                  player1 := (player1 a)\<lparr>isWinner := False, Player.gameEnded := True\<rparr>,
                  player2 := (player2 a)\<lparr>isWinner := True, Player.gameEnded := True\<rparr>\<rparr>
              else a)
        else
          (let a = g\<lparr>isPlayer2Serve := False\<rparr>
           in if winningScore a \<le> scores0 a then
                a\<lparr>gameEnded := True,
                  player1 := (player1 a)\<lparr>isWinner := True, Player.gameEnded := True\<rparr>,
                  player2 := (player2 a)\<lparr>isWinner := False, Player.gameEnded := True\<rparr>\<rparr>
              else a));
         g2 =
       (if \<not> roundEnded g1 \<and> \<not> gameEnded g1
        then g1\<lparr>slowMotionFramesLeft := SLOW_MOTION_FRAMES_NUM\<rparr> else g1)
     in g2\<lparr>roundEnded := True\<rparr>)"

text \<open>
  The rest of \<^verbatim>\<open>round\<close>, from \<^verbatim>\<open>if (this.gameEnded === true)\<close> on; \<open>pressed\<close> is the
  constant \<^verbatim>\<open>pressedPowerHit\<close> computed at the top of \<^verbatim>\<open>round\<close>.
\<close>

definition roundRest :: "int \<Rightarrow> bool \<Rightarrow> bool \<Rightarrow> PikachuVolleyball \<Rightarrow> PikachuVolleyball" where
  "roundRest GROUND_HALF_WIDTH isBallTouchingGround pressed g3 =
    (if gameEnded g3 then
       (let g4 = g3\<lparr>frameCounter := frameCounter g3 + 1\<rparr>
        in if frameTotal_gameEnd \<le> frameCounter g4 \<or> (70 \<le> frameCounter g4 \<and> pressed)
           then g4\<lparr>frameCounter := 0, state := Intro\<rparr> else g4)
     else
       (let g5 =
          (if isBallTouchingGround \<and> \<not> isPracticeMode g3 \<and> \<not> roundEnded g3
               \<and> \<not> gameEnded g3
           then endOfRound GROUND_HALF_WIDTH g3 else g3)
        in if roundEnded g5 \<and> \<not> gameEnded g5 then
             (if slowMotionFramesLeft g5 = 0 then g5\<lparr>state := AfterEndOfRound\<rparr> else g5)
           else g5))"

definition round :: "int \<Rightarrow> Engine \<Rightarrow> PikachuVolleyball \<Rightarrow> PikachuVolleyball" where
  "round GROUND_HALF_WIDTH runEngineForNextFrame g =
    (let pressed = pressedPowerHit g
     in if isComputer (player1 g) \<and> isComputer (player2 g) \<and> pressed
        then g\<lparr>frameCounter := 0, state := Intro\<rparr>
        else
          (let g1 = recordInput (mergeKeyboards g);
               engineResult = runEngineForNextFrame (keyboardArray0 g1) (keyboardArray1 g1);
               g2 = g1\<lparr>ball := ballAfter engineResult\<rparr>;
               isBallTouchingGround = returned engineResult;
               g3 = (if isBallTouchingGround then flushActList g2 else g2)
           in roundRest GROUND_HALF_WIDTH isBallTouchingGround pressed g3))"

subsection \<open>Game states after the round\<close>

definition afterEndOfRound :: "PikachuVolleyball \<Rightarrow> PikachuVolleyball" where
  "afterEndOfRound g =
    (let g1 = g\<lparr>frameCounter := frameCounter g + 1\<rparr>
     in if frameTotal_afterEndOfRound \<le> frameCounter g1
        then g1\<lparr>frameCounter := 0, state := BeforeStartOfNextRound\<rparr> else g1)"

definition beforeStartOfNextRound :: "PikachuVolleyball \<Rightarrow> PikachuVolleyball" where
  "beforeStartOfNextRound g =
    (let g1 = (if frameCounter g = 0 then placeBall g else g);
         g2 = g1\<lparr>frameCounter := frameCounter g1 + 1\<rparr>
     in if frameTotal_beforeStartOfNextRound \<le> frameCounter g2
        then g2\<lparr>frameCounter := 0, roundEnded := False, ActList := [], state := Round\<rparr>
        else g2)"

text \<open>\<^verbatim>\<open>restart()\<close>, without the reseeding of the random number generator.\<close>

definition restart :: "PikachuVolleyball \<Rightarrow> PikachuVolleyball" where
  "restart g =
    g\<lparr>frameCounter := 0, noInputFrameCounter := 0, slowMotionFramesLeft := 0,
      slowMotionNumOfSkippedFrames := 0, ActList := [], state := Intro\<rparr>"

subsection \<open>The game loop\<close>

text \<open>
  \<^verbatim>\<open>Math.round(a / b)\<close> for two small non-negative integers, \<^verbatim>\<open>b\<close> positive: the quotient
  rounded half up. For \<^verbatim>\<open>b = 0\<close> the value here is 0 and the test \<^verbatim>\<open>n % 0 !== 0\<close> of the loop holds
  for every positive \<^verbatim>\<open>n\<close>, as \<^verbatim>\<open>n % Infinity !== 0\<close> and \<^verbatim>\<open>NaN !== 0\<close> do in JavaScript.
\<close>

definition Math_round_div :: "nat \<Rightarrow> nat \<Rightarrow> nat" where
  "Math_round_div a b = (2 * a + b) div (2 * b)"

definition latchInputs :: "PikachuVolleyball \<Rightarrow> PikachuVolleyball" where
  "latchInputs g =
    g\<lparr>keyboardArray0 := getInput (keyboardArray0 g), keyboardArray1 := getInput (keyboardArray1 g)\<rparr>"

text \<open>The call \<^verbatim>\<open>this.state()\<close>.\<close>

definition runState :: "int \<Rightarrow> Engine \<Rightarrow> PikachuVolleyball \<Rightarrow> PikachuVolleyball" where
  "runState GROUND_HALF_WIDTH engine g =
    (case state g of
       Intro \<Rightarrow> intro g
     | Menu \<Rightarrow> menu g
     | AfterMenuSelection \<Rightarrow> afterMenuSelection g
     | BeforeStartOfNewGame \<Rightarrow> beforeStartOfNewGame g
     | StartOfNewGame \<Rightarrow> startOfNewGame g
     | Round \<Rightarrow> round GROUND_HALF_WIDTH engine g
     | AfterEndOfRound \<Rightarrow> afterEndOfRound g
     | BeforeStartOfNextRound \<Rightarrow> beforeStartOfNextRound g)"

text \<open>
  \<^verbatim>\<open>gameLoop()\<close>, without the call to the replay saver. Everything before
  \<^verbatim>\<open>this.state()\<close> either returns (\<open>Inl\<close>, with the object as it is left: paused, or a
  frame skipped during slow motion) or goes on to \<^verbatim>\<open>this.state()\<close> (\<open>Inr\<close>, with the
  object on which it is called).
\<close>

definition gameLoopHead :: "PikachuVolleyball \<Rightarrow> PikachuVolleyball + PikachuVolleyball" where
  "gameLoopHead g =
    (if paused g then Inl g
     else
       (let g1 = latchInputs g
        in if 0 < slowMotionFramesLeft g1 then
             (let g2 = g1\<lparr>slowMotionNumOfSkippedFrames := slowMotionNumOfSkippedFrames g1 + 1\<rparr>
              in if slowMotionNumOfSkippedFrames g2
                      mod Math_round_div (normalFPS g2) (slowMotionFPS g2) \<noteq> 0
                 then Inl g2
                 else Inr (g2\<lparr>slowMotionFramesLeft := slowMotionFramesLeft g2 - 1,
                              slowMotionNumOfSkippedFrames := 0\<rparr>))
           else Inr g1))"

definition gameLoop :: "int \<Rightarrow> Engine \<Rightarrow> PikachuVolleyball \<Rightarrow> PikachuVolleyball" where
  "gameLoop GROUND_HALF_WIDTH engine g =
    (case gameLoopHead g of
       Inl g' \<Rightarrow> g'
     | Inr g' \<Rightarrow> runState GROUND_HALF_WIDTH engine g')"

subsection \<open>Executions\<close>

text \<open>
  What happens to a running game: the window delivers a key event, the timer calls
  \<^verbatim>\<open>gameLoop\<close> (with what the physics engine would do in that frame), the restart button is
  clicked, or the surrounding page assigns \<^verbatim>\<open>paused\<close> or \<^verbatim>\<open>isPracticeMode\<close>.
\<close>

datatype event =
  KeyDown string | KeyUp string | Frame Engine | Restart | SetPaused bool | SetPracticeMode bool

fun step :: "int \<Rightarrow> PikachuVolleyball \<Rightarrow> event \<Rightarrow> PikachuVolleyball" where
  "step GROUND_HALF_WIDTH g (KeyDown code) =
     g\<lparr>keyboardArray0 := keyboardKeyDown code (keyboardArray0 g),
       keyboardArray1 := keyboardKeyDown code (keyboardArray1 g)\<rparr>"
| "step GROUND_HALF_WIDTH g (KeyUp code) =
     g\<lparr>keyboardArray0 := keyboardKeyUp code (keyboardArray0 g),
       keyboardArray1 := keyboardKeyUp code (keyboardArray1 g)\<rparr>"
| "step GROUND_HALF_WIDTH g (Frame engine) = gameLoop GROUND_HALF_WIDTH engine g"
| "step GROUND_HALF_WIDTH g Restart = restart g"
| "step GROUND_HALF_WIDTH g (SetPaused b) = g\<lparr>paused := b\<rparr>"
| "step GROUND_HALF_WIDTH g (SetPracticeMode b) = g\<lparr>isPracticeMode := b\<rparr>"

text \<open>The states a game can be in, from its construction on.\<close>

inductive reachable :: "int \<Rightarrow> PikachuVolleyball \<Rightarrow> bool" for GROUND_HALF_WIDTH :: int where
  reachable_new: "reachable GROUND_HALF_WIDTH (PikachuVolleyball_new p1 p2 b super page)"
| reachable_step: "reachable GROUND_HALF_WIDTH g \<Longrightarrow> reachable GROUND_HALF_WIDTH (step GROUND_HALF_WIDTH g e)"

fun run :: "int \<Rightarrow> PikachuVolleyball \<Rightarrow> event list \<Rightarrow> PikachuVolleyball" where
  "run GROUND_HALF_WIDTH g [] = g"
| "run GROUND_HALF_WIDTH g (e # es) = run GROUND_HALF_WIDTH (step GROUND_HALF_WIDTH g e) es"

section \<open>Notions used to state the properties\<close>

text \<open>The Input Snapshots of the specification: directions in \<open>{-1, 0, 1}\<close>, power hit 0 or 1.\<close>

definition validInput :: "PikaUserInput \<Rightarrow> bool" where
  "validInput u \<longleftrightarrow>
    xDirection u \<in> {-1, 0, 1} \<and> yDirection u \<in> {-1, 0, 1} \<and> powerHit u \<in> {0, 1}"

text \<open>
  The letters between the dash and the slash of a token: up or down, then left or right,
  then the power hit. The neutral snapshot has none.
\<close>

definition inputSymbol :: "PikaUserInput \<Rightarrow> string" where
  "inputSymbol u =
    (if yDirection u = -1 then ''U'' else if yDirection u = 1 then ''D'' else [])
    @ (if xDirection u = -1 then ''L'' else if xDirection u = 1 then ''R'' else [])
    @ (if powerHit u = 1 then ''H'' else [])"

definition neutralInput :: "PikaUserInput \<Rightarrow> bool" where
  "neutralInput u \<longleftrightarrow> xDirection u = 0 \<and> yDirection u = 0 \<and> powerHit u = 0"

text \<open>
  The serve-code text format of the specification for one side: a concatenation of runs
  \<open>symbol @ decimalDigits\<close>, each symbol a token of a valid snapshot of that side.
\<close>

inductive serveCode :: "int \<Rightarrow> string \<Rightarrow> bool" for playerNum :: int where
  serveCode_Nil: "serveCode playerNum []"
| serveCode_run: "validInput u \<Longrightarrow> encodeUserInput u playerNum = Str symbol \<Longrightarrow>
    decimalDigits \<noteq> [] \<Longrightarrow> set decimalDigits \<subseteq> set ''0123456789'' \<Longrightarrow>
    serveCode playerNum rest \<Longrightarrow> serveCode playerNum (symbol @ decimalDigits @ rest)"

text \<open>
  A round tick is a frame on which \<^verbatim>\<open>gameLoop\<close> calls \<^verbatim>\<open>round\<close>; \<open>roundCalledOn\<close> gives the
  object it is called on.
\<close>

definition roundCalledOn :: "PikachuVolleyball \<Rightarrow> event \<Rightarrow> PikachuVolleyball option" where
  "roundCalledOn g e =
    (case e of
       Frame engine \<Rightarrow>
         (case gameLoopHead g of
            Inr g' \<Rightarrow> (if state g' = Round then Some g' else None)
          | Inl _ \<Rightarrow> None)
     | _ \<Rightarrow> None)"

text \<open>What the engine does when \<^verbatim>\<open>round\<close>, called on \<open>g\<close>, runs it: it is given the merged keyboards.\<close>

definition engineResultIn :: "Engine \<Rightarrow> PikachuVolleyball \<Rightarrow> EngineResult" where
  "engineResultIn engine g =
    engine (keyboardArray0 (mergeKeyboards g)) (keyboardArray1 (mergeKeyboards g))"

text \<open>The event runs the block of \<^verbatim>\<open>round\<close> that encodes and empties \<^verbatim>\<open>ActList\<close>.\<close>

definition flushes :: "PikachuVolleyball \<Rightarrow> event \<Rightarrow> bool" where
  "flushes g e =
    (case e of
       Frame engine \<Rightarrow>
         (case roundCalledOn g e of
            Some g' \<Rightarrow> returned (engineResultIn engine g')
              \<and> \<not> (isComputer (player1 g') \<and> isComputer (player2 g') \<and> pressedPowerHit g')
          | None \<Rightarrow> False)
     | _ \<Rightarrow> False)"

text \<open>
  The event executes \<^verbatim>\<open>ActList.length = 0\<close>: in \<^verbatim>\<open>restart\<close>, in the block above, or in the last
  frame of \<^verbatim>\<open>beforeStartOfNextRound\<close>.
\<close>

definition emptiesActList :: "PikachuVolleyball \<Rightarrow> event \<Rightarrow> bool" where
  "emptiesActList g e =
    (case e of
       Restart \<Rightarrow> True
     | Frame engine \<Rightarrow>
         flushes g e \<or>
         (case gameLoopHead g of
            Inr g' \<Rightarrow> state g' = BeforeStartOfNextRound
              \<and> frameTotal_beforeStartOfNextRound \<le> frameCounter g' + 1
          | Inl _ \<Rightarrow> False)
     | _ \<Rightarrow> False)"

text \<open>
  An execution with two history values beside the game: the number of round ticks since
  \<^verbatim>\<open>ActList\<close> was last emptied, and, for every time the block above has run, that number
  as it was when the block ran (the tick that runs the block included).
\<close>

fun countTicks ::
  "int \<Rightarrow> PikachuVolleyball \<Rightarrow> nat \<Rightarrow> nat list \<Rightarrow> event list \<Rightarrow> PikachuVolleyball \<times> nat \<times> nat list" where
  "countTicks GROUND_HALF_WIDTH g n atFlush [] = (g, n, atFlush)"
| "countTicks GROUND_HALF_WIDTH g n atFlush (e # es) =
    countTicks GROUND_HALF_WIDTH (step GROUND_HALF_WIDTH g e)
      (if emptiesActList g e then 0 else if roundCalledOn g e \<noteq> None then n + 1 else n)
      (if flushes g e then atFlush @ [n + 1] else atFlush)
      es"

text \<open>The snapshot \<^verbatim>\<open>round\<close> pushes when called on \<open>g\<close>: taken after the keyboards are merged.\<close>

definition humanInput :: "PikachuVolleyball \<Rightarrow> PikaUserInput" where
  "humanInput g =
    (if isComputer (player1 g) then player2Input (mergeKeyboards g)
     else player1Input (mergeKeyboards g))"

text \<open>Once the menu has been left, the two players are not both computers.\<close>

definition humanChosen :: "PikachuVolleyball \<Rightarrow> bool" where
  "humanChosen g \<longleftrightarrow>
    (state g \<noteq> Intro \<and> state g \<noteq> Menu \<longrightarrow> \<not> (isComputer (player1 g) \<and> isComputer (player2 g)))"

text \<open>An ended game has exactly one winner.\<close>

definition tieFree :: "PikachuVolleyball \<Rightarrow> bool" where
  "tieFree g \<longleftrightarrow> (gameEnded g \<longrightarrow> isWinner (player1 g) \<noteq> isWinner (player2 g))"

text \<open>Every snapshot in the log, and in every log written to the console, is valid.\<close>

definition validLogs :: "PikachuVolleyball \<Rightarrow> bool" where
  "validLogs g \<longleftrightarrow>
    (\<forall>u\<in>set (ActList g). validInput u) \<and> (\<forall>l\<in>set (consoleLog g). \<forall>u\<in>set l. validInput u)"

section \<open>Concrete games\<close>

text \<open>
  A game as the page creates it, with both players computers until the menu decides, and
  an engine whose ball is at \<open>x\<close> and touches the ground or not.
\<close>

definition newPlayer :: Player where
  "newPlayer = \<lparr>isComputer = True, isWinner = False, gameEnded = False\<rparr>"

definition exampleGame :: PikachuVolleyball where
  "exampleGame =
    PikachuVolleyball_new newPlayer newPlayer \<lparr>ball_x = 56, punchEffectX = 0\<rparr>
      \<lparr>xDirection = 0, yDirection = 0, powerHit = 0\<rparr> (Some [])"

definition ballAt :: "bool \<Rightarrow> int \<Rightarrow> Engine" where
  "ballAt touchesGround x keyboard0 keyboard1 =
    \<lparr>returned = touchesGround, ballAfter = \<lparr>ball_x = x, punchEffectX = x\<rparr>\<rparr>"

text \<open>
  Z is pressed three times (leaving the intro, skipping the menu animation, choosing to
  play as player 1 against the computer) and stays down; 101 more frames reach the round.
\<close>

definition toFirstRound :: "event list" where
  "toFirstRound =
    [KeyDown ''KeyZ'', Frame (ballAt False 56), KeyUp ''KeyZ'', Frame (ballAt False 56),
     KeyDown ''KeyZ'', Frame (ballAt False 56), KeyUp ''KeyZ'', Frame (ballAt False 56),
     KeyDown ''KeyZ'', Frame (ballAt False 56)]
    @ replicate 101 (Frame (ballAt False 56))"

text \<open>Two round ticks with the left arrow held.\<close>

definition twoTicksLeft :: "event list" where
  "twoTicksLeft = toFirstRound @ [KeyDown ''ArrowLeft'', Frame (ballAt False 56), Frame (ballAt False 56)]"

text \<open>A third round tick, in which the ball touches the ground at \<open>x = 100\<close>.\<close>

definition threeTicksTouch :: "event list" where
  "threeTicksTouch = twoTicksLeft @ [Frame (ballAt True 100)]"

text \<open>
  Thirty more frames of slow motion, which call \<^verbatim>\<open>round\<close> six times, five frames of
  \<^verbatim>\<open>afterEndOfRound\<close> and the first frame of \<^verbatim>\<open>beforeStartOfNextRound\<close>.
\<close>

definition nextRoundReady :: "event list" where
  "nextRoundReady = threeTicksTouch @ replicate 36 (Frame (ballAt False 100))"

text \<open>The game entering its first round tick with the left arrow, a key of keyboard 2, held.\<close>

definition leftArrowRound :: PikachuVolleyball where
  "leftArrowRound = latchInputs (run 216 exampleGame (toFirstRound @ [KeyDown ''ArrowLeft'']))"

text \<open>A round in which player 2 already holds the winning score.\<close>

definition matchPoint :: PikachuVolleyball where
  "matchPoint = (run 216 exampleGame twoTicksLeft)\<lparr>scores1 := 15\<rparr>"

text \<open>The keys of keyboard 1 with only the power-hit key held, or none.\<close>

definition onlyPowerHit :: "bool \<Rightarrow> keyStates" where
  "onlyPowerHit down =
    (Key_new ''KeyD'', Key_new ''KeyG'', Key_new ''KeyR'', Key_new ''KeyV'',
     (Key_new ''KeyZ'')\<lparr>isDown := down, isUp := \<not> down\<rparr>, [])"

definition keyboard1 :: PikaKeyboard where
  "keyboard1 =
    PikaKeyboard_new \<lparr>xDirection = 0, yDirection = 0, powerHit = 0\<rparr>
      ''KeyD'' ''KeyG'' ''KeyR'' ''KeyV'' ''KeyZ'' []"

text \<open>The log of the specification's example: three ticks to the left, two ticks of power hit.\<close>

definition exampleLog :: "PikaUserInput list" where
  "exampleLog =
    [\<lparr>xDirection = -1, yDirection = 0, powerHit = 0\<rparr>,
     \<lparr>xDirection = -1, yDirection = 0, powerHit = 0\<rparr>,
     \<lparr>xDirection = -1, yDirection = 0, powerHit = 0\<rparr>,
     \<lparr>xDirection = 0, yDirection = 0, powerHit = 1\<rparr>,
     \<lparr>xDirection = 0, yDirection = 0, powerHit = 1\<rparr>]"

section \<open>Properties of the encoder and of the game states\<close>

subsection \<open>Tokens and runs\<close>

lemma enc_total: "validInput u \<Longrightarrow> \<exists>t. encodeUserInput u p = Str t"
  unfolding validInput_def encodeUserInput_def by auto

lemma enc_undef: "encodeUserInput u p = Undefined \<longleftrightarrow> \<not> validInput u"
  unfolding validInput_def encodeUserInput_def by auto


lemma validInput_cases:
  assumes "validInput u"
  obtains x y h where "u = \<lparr>xDirection = x, yDirection = y, powerHit = h\<rparr>"
    "x = -1 \<or> x = 0 \<or> x = 1" "y = -1 \<or> y = 0 \<or> y = 1" "h = 0 \<or> h = 1"
  using assms unfolding validInput_def by (cases u) auto

lemma enc_fields:
  assumes "validInput u" "encodeUserInput u p = Str t"
  shows "xDirection u = (if CHR ''L'' \<in> set t then -1 else if CHR ''R'' \<in> set t then 1 else 0)
    \<and> yDirection u = (if CHR ''U'' \<in> set t then -1 else if CHR ''D'' \<in> set t then 1 else 0)
    \<and> powerHit u = (if CHR ''H'' \<in> set t then 1 else 0)"
proof -
  from assms(1) obtain x y h where u: "u = \<lparr>xDirection = x, yDirection = y, powerHit = h\<rparr>"
    and x: "x = -1 \<or> x = 0 \<or> x = 1" and y: "y = -1 \<or> y = 0 \<or> y = 1" and h: "h = 0 \<or> h = 1"
    by (rule validInput_cases)
  from x y h assms(2) show ?thesis
    unfolding u 
    apply (elim disjE)
    apply (simp_all add: encodeUserInput_def split: if_splits)
    apply auto
    done
qed


lemma Number_toString_1: "Number_toString 1 = ''1''"
  by (simp add: Number_toString.simps digitChar_def)

lemma concatLoop_replicate: "concatLoop (replicate n c) r c k = r @ plusCount c (k + n)"
  by (induction n arbitrary: k) simp_all

lemma concatLoop_distinct_adj:
  "distinct_adj (c # xs) \<Longrightarrow> concatLoop xs r c (Suc 0) = r @ concat (map (\<lambda>t. plusCount t (Suc 0)) (c # xs))"
  by (induction xs arbitrary: r c) auto

lemma serveCode_append: "serveCode p a \<Longrightarrow> serveCode p b \<Longrightarrow> serveCode p (a @ b)"
proof (induction rule: serveCode.induct)
  case serveCode_Nil
  then show ?case by simp
next
  case (serveCode_run u symbol decimalDigits rest)
  have "serveCode p (rest @ b)" using serveCode_run.IH serveCode_run.prems by blast
  with serveCode_run.hyps(1-4) have "serveCode p (symbol @ decimalDigits @ (rest @ b))"
    by (rule serveCode.serveCode_run)
  then show ?case by simp
qed

lemma digitChar_digit: "d < 10 \<Longrightarrow> digitChar d \<in> set ''0123456789''"
proof -
  assume "d < 10"
  then have "d \<in> {0,1,2,3,4,5,6,7,8,9}" by auto
  then show ?thesis unfolding digitChar_def by auto
qed

lemma Number_toString_digits: "set (Number_toString n) \<subseteq> set ''0123456789''"
proof (induction n rule: Number_toString.induct)
  case (1 n)
  show ?case
  proof (cases "n < 10")
    case True
    then show ?thesis using digitChar_digit[of n] by (subst Number_toString.simps) simp
  next
    case False
    have "n mod 10 < 10" by simp
    from digitChar_digit[OF this] 1[OF False] False show ?thesis
      by (subst Number_toString.simps) simp
  qed
qed

lemma Number_toString_nonempty: "Number_toString n \<noteq> []"
  by (subst Number_toString.simps) simp

lemma enc_dash:
  assumes "validInput u" "encodeUserInput u p = Str t"
  shows "\<exists>r. t = CHR ''-'' # r \<and> set t \<subseteq> set ''UDLRH-/''"
proof -
  from assms(1) obtain x y h where u: "u = \<lparr>xDirection = x, yDirection = y, powerHit = h\<rparr>"
    and x: "x = -1 \<or> x = 0 \<or> x = 1" and y: "y = -1 \<or> y = 0 \<or> y = 1" and h: "h = 0 \<or> h = 1"
    by (rule validInput_cases)
  from x y h assms(2) show ?thesis
    unfolding u 
    apply (elim disjE)
    apply (simp_all add: encodeUserInput_def split: if_splits)
    apply auto
    done
qed

lemma serveCode_hd: "serveCode p s \<Longrightarrow> s = [] \<or> hd s = CHR ''-''"
  by (induction rule: serveCode.induct) (auto dest: enc_dash)

lemma concatLoop_serveCode:
  assumes "\<forall>t\<in>set (current # arr). \<exists>u. validInput u \<and> encodeUserInput u p = t"
    "serveCode p result" "0 < count"
  shows "serveCode p (concatLoop arr result current count)"
  using assms
proof (induction arr arbitrary: result current count)
  case Nil
  then obtain u where u: "validInput u" "encodeUserInput u p = current" by auto
  then obtain s where s: "current = Str s" using enc_total[OF u(1), of p] by auto
  have "serveCode p (s @ Number_toString count @ [])"
    using u s Number_toString_digits Number_toString_nonempty by (intro serveCode_run[of u]) (auto intro: serveCode_Nil)
  then show ?case using Nil s by (simp add: serveCode_append)
next
  case (Cons a arr)
  then obtain u where u: "validInput u" "encodeUserInput u p = current" by auto
  then obtain s where s: "current = Str s" using enc_total[OF u(1), of p] by auto
  have run: "serveCode p (s @ Number_toString count @ [])"
    using u s Number_toString_digits Number_toString_nonempty by (intro serveCode_run[of u]) (auto intro: serveCode_Nil)
  show ?case
  proof (cases "a = current")
    case True
    then show ?thesis using Cons.IH[of current result "count + 1"] Cons.prems by simp
  next
    case False
    have "serveCode p (result @ plusCount current count)" using run s Cons.prems(2) by (simp add: serveCode_append)
    then show ?thesis using False Cons.IH[of a "result @ plusCount current count" 1] Cons.prems by simp
  qed
qed



subsection \<open>What each game state leaves unchanged\<close>

lemma gameLoopHead_keeps:
  "gameLoopHead g = Inr g' \<Longrightarrow> state g' = state g \<and> player1 g' = player1 g \<and> player2 g' = player2 g
     \<and> ActList g' = ActList g \<and> consoleLog g' = consoleLog g \<and> gameEnded g' = gameEnded g
     \<and> codeViewerOutput g' = codeViewerOutput g
     \<and> keyboardArray0 g' = getInput (keyboardArray0 g) \<and> keyboardArray1 g' = getInput (keyboardArray1 g)"
  "gameLoopHead g = Inl g' \<Longrightarrow> state g' = state g \<and> player1 g' = player1 g \<and> player2 g' = player2 g
     \<and> ActList g' = ActList g \<and> consoleLog g' = consoleLog g \<and> gameEnded g' = gameEnded g
     \<and> codeViewerOutput g' = codeViewerOutput g"
  by (auto simp: gameLoopHead_def latchInputs_def Let_def split: if_splits)

lemma intro_proj:
  "player1 (intro g) = player1 g" "player2 (intro g) = player2 g"
  "ActList (intro g) = ActList g" "consoleLog (intro g) = consoleLog g"
  "gameEnded (intro g) = gameEnded g" "codeViewerOutput (intro g) = codeViewerOutput g"
  "state (intro g) = Menu \<or> state (intro g) = state g"
  by (simp_all add: intro_def Let_def)

lemma menu_proj:
  "isWinner (player1 (menu g)) = isWinner (player1 g)" "isWinner (player2 (menu g)) = isWinner (player2 g)"
  "ActList (menu g) = ActList g" "consoleLog (menu g) = consoleLog g"
  "gameEnded (menu g) = gameEnded g" "codeViewerOutput (menu g) = codeViewerOutput g"
  by (simp_all add: menu_def Let_def)

lemma menu_state:
  "state (menu g) = AfterMenuSelection \<and> \<not> (isComputer (player1 (menu g)) \<and> isComputer (player2 (menu g)))
   \<or> state (menu g) = state g \<and> player1 (menu g) = player1 g \<and> player2 (menu g) = player2 g"
  by (simp add: menu_def Let_def pressedPowerHit_def)

lemma afterMenuSelection_proj:
  "player1 (afterMenuSelection g) = player1 g" "player2 (afterMenuSelection g) = player2 g"
  "ActList (afterMenuSelection g) = ActList g" "consoleLog (afterMenuSelection g) = consoleLog g"
  "gameEnded (afterMenuSelection g) = gameEnded g" "codeViewerOutput (afterMenuSelection g) = codeViewerOutput g"
  by (simp_all add: afterMenuSelection_def Let_def)

lemma beforeStartOfNewGame_proj:
  "player1 (beforeStartOfNewGame g) = player1 g" "player2 (beforeStartOfNewGame g) = player2 g"
  "ActList (beforeStartOfNewGame g) = ActList g" "consoleLog (beforeStartOfNewGame g) = consoleLog g"
  "gameEnded (beforeStartOfNewGame g) = gameEnded g" "codeViewerOutput (beforeStartOfNewGame g) = codeViewerOutput g"
  by (simp_all add: beforeStartOfNewGame_def Let_def)

lemma startOfNewGame_proj:
  "isComputer (player1 (startOfNewGame g)) = isComputer (player1 g)"
  "isComputer (player2 (startOfNewGame g)) = isComputer (player2 g)"
  "ActList (startOfNewGame g) = ActList g" "consoleLog (startOfNewGame g) = consoleLog g"
  "codeViewerOutput (startOfNewGame g) = codeViewerOutput g"
  by (simp_all add: startOfNewGame_def placeBall_def Let_def)

lemma startOfNewGame_gameEnded:
  "gameEnded (startOfNewGame g) \<Longrightarrow> gameEnded g \<and> player1 (startOfNewGame g) = player1 g \<and> player2 (startOfNewGame g) = player2 g"
  by (simp add: startOfNewGame_def placeBall_def Let_def split: if_splits)

lemma afterEndOfRound_proj:
  "player1 (afterEndOfRound g) = player1 g" "player2 (afterEndOfRound g) = player2 g"
  "ActList (afterEndOfRound g) = ActList g" "consoleLog (afterEndOfRound g) = consoleLog g"
  "gameEnded (afterEndOfRound g) = gameEnded g" "codeViewerOutput (afterEndOfRound g) = codeViewerOutput g"
  by (simp_all add: afterEndOfRound_def Let_def)

lemma beforeStartOfNextRound_proj:
  "player1 (beforeStartOfNextRound g) = player1 g" "player2 (beforeStartOfNextRound g) = player2 g"
  "ActList (beforeStartOfNextRound g) = (if frameTotal_beforeStartOfNextRound \<le> frameCounter g + 1 then [] else ActList g)"
  "consoleLog (beforeStartOfNextRound g) = consoleLog g"
  "gameEnded (beforeStartOfNextRound g) = gameEnded g" "codeViewerOutput (beforeStartOfNextRound g) = codeViewerOutput g"
  by (simp_all add: beforeStartOfNextRound_def placeBall_def Let_def)

lemma mergeKeyboards_proj:
  "player1 (mergeKeyboards g) = player1 g" "player2 (mergeKeyboards g) = player2 g"
  "ActList (mergeKeyboards g) = ActList g" "consoleLog (mergeKeyboards g) = consoleLog g"
  "gameEnded (mergeKeyboards g) = gameEnded g" "codeViewerOutput (mergeKeyboards g) = codeViewerOutput g"
  "scores0 (mergeKeyboards g) = scores0 g" "scores1 (mergeKeyboards g) = scores1 g"
  "winningScore (mergeKeyboards g) = winningScore g" "roundEnded (mergeKeyboards g) = roundEnded g"
  "isPracticeMode (mergeKeyboards g) = isPracticeMode g" "isPlayer2Serve (mergeKeyboards g) = isPlayer2Serve g"
  by (simp_all add: mergeKeyboards_def Let_def)

lemma recordInput_proj:
  "player1 (recordInput g) = player1 g" "player2 (recordInput g) = player2 g"
  "ActList (recordInput g) = ActList g @ [if isComputer (player1 g) then player2Input g else player1Input g]"
  "consoleLog (recordInput g) = consoleLog g"
  "gameEnded (recordInput g) = gameEnded g" "codeViewerOutput (recordInput g) = codeViewerOutput g"
  "scores0 (recordInput g) = scores0 g" "scores1 (recordInput g) = scores1 g"
  "winningScore (recordInput g) = winningScore g" "roundEnded (recordInput g) = roundEnded g"
  "isPracticeMode (recordInput g) = isPracticeMode g" "isPlayer2Serve (recordInput g) = isPlayer2Serve g"
  by (simp_all add: recordInput_def)

lemma flushActList_proj:
  "player1 (flushActList g) = player1 g" "player2 (flushActList g) = player2 g"
  "ActList (flushActList g) = []"
  "consoleLog (flushActList g) = consoleLog g @ [ActList g]"
  "gameEnded (flushActList g) = gameEnded g"
  "codeViewerOutput (flushActList g) = logToNotepad (notepadMessage (ActList g) (isComputer (player1 g))) (codeViewerOutput g)"
  "scores0 (flushActList g) = scores0 g" "scores1 (flushActList g) = scores1 g"
  "winningScore (flushActList g) = winningScore g" "roundEnded (flushActList g) = roundEnded g"
  "isPracticeMode (flushActList g) = isPracticeMode g" "isPlayer2Serve (flushActList g) = isPlayer2Serve g"
  "ball (flushActList g) = ball g"
  by (simp_all add: flushActList_def)

lemma endOfRound_proj:
  "isComputer (player1 (endOfRound G g)) = isComputer (player1 g)"
  "isComputer (player2 (endOfRound G g)) = isComputer (player2 g)"
  "ActList (endOfRound G g) = ActList g" "consoleLog (endOfRound G g) = consoleLog g"
  "codeViewerOutput (endOfRound G g) = codeViewerOutput g"
  "scores0 (endOfRound G g) = scores0 g" "scores1 (endOfRound G g) = scores1 g"
  "isPlayer2Serve (endOfRound G g) = (punchEffectX (ball g) < G)"
  "roundEnded (endOfRound G g)"
  "keyboardArray0 (endOfRound G g) = keyboardArray0 g" "keyboardArray1 (endOfRound G g) = keyboardArray1 g"
  by (simp_all add: endOfRound_def Let_def)

lemma endOfRound_gameEnded:
  "gameEnded (endOfRound G g) = (gameEnded g \<or> (if punchEffectX (ball g) < G then winningScore g \<le> scores1 g else winningScore g \<le> scores0 g))"
  by (simp add: endOfRound_def Let_def)

lemma endOfRound_winner:
  "\<not> gameEnded g \<Longrightarrow> gameEnded (endOfRound G g) \<Longrightarrow>
     isWinner (player1 (endOfRound G g)) = (\<not> punchEffectX (ball g) < G) \<and>
     isWinner (player2 (endOfRound G g)) = (punchEffectX (ball g) < G) \<and>
     Player.gameEnded (player1 (endOfRound G g)) \<and> Player.gameEnded (player2 (endOfRound G g))"
  by (simp add: endOfRound_def Let_def split: if_splits)

subsection \<open>The round\<close>

lemmas piece_proj = mergeKeyboards_proj recordInput_proj flushActList_proj endOfRound_proj

lemma roundRest_proj:
  "isComputer (player1 (roundRest G r p g)) = isComputer (player1 g)"
  "isComputer (player2 (roundRest G r p g)) = isComputer (player2 g)"
  "ActList (roundRest G r p g) = ActList g" "consoleLog (roundRest G r p g) = consoleLog g"
  "codeViewerOutput (roundRest G r p g) = codeViewerOutput g"
  "scores0 (roundRest G r p g) = scores0 g" "scores1 (roundRest G r p g) = scores1 g"
  "keyboardArray0 (roundRest G r p g) = keyboardArray0 g" "keyboardArray1 (roundRest G r p g) = keyboardArray1 g"
  by (simp_all add: roundRest_def Let_def endOfRound_proj)

lemma roundRest_tieFree: "tieFree g \<Longrightarrow> tieFree (roundRest G r p g)"
proof (cases "gameEnded g")
  case True
  assume "tieFree g"
  with True show ?thesis by (simp add: roundRest_def Let_def tieFree_def)
next
  case ne: False
  show ?thesis
  proof (cases "r \<and> \<not> isPracticeMode g \<and> \<not> roundEnded g")
    case True
    have "tieFree (endOfRound G g)"
      using endOfRound_winner[of g G] ne by (auto simp: tieFree_def)
    then show ?thesis using ne True by (simp add: roundRest_def Let_def tieFree_def)
  next
    case False
    then show ?thesis using ne by (auto simp add: roundRest_def Let_def tieFree_def)
  qed
qed

lemma round_early:
  "isComputer (player1 g) \<and> isComputer (player2 g) \<and> pressedPowerHit g \<Longrightarrow>
     round G r g = g\<lparr>frameCounter := 0, state := Intro\<rparr>"
  by (simp add: round_def Let_def)

lemma round_body:
  assumes "\<not> (isComputer (player1 g) \<and> isComputer (player2 g) \<and> pressedPowerHit g)"
  shows "round G e g = roundRest G (returned (engineResultIn e g)) (pressedPowerHit g)
     (if returned (engineResultIn e g)
      then flushActList ((recordInput (mergeKeyboards g))\<lparr>ball := ballAfter (engineResultIn e g)\<rparr>)
      else (recordInput (mergeKeyboards g))\<lparr>ball := ballAfter (engineResultIn e g)\<rparr>)"
proof -
  have k: "keyboardArray0 (recordInput (mergeKeyboards g)) = keyboardArray0 (mergeKeyboards g)"
    "keyboardArray1 (recordInput (mergeKeyboards g)) = keyboardArray1 (mergeKeyboards g)"
    by (simp_all add: recordInput_def)
  show ?thesis unfolding round_def Let_def engineResultIn_def k using assms by (rule if_not_P)
qed

lemma round_ActList:
  "\<not> (isComputer (player1 g) \<and> isComputer (player2 g) \<and> pressedPowerHit g) \<Longrightarrow>
     ActList (round G e g) = (if returned (engineResultIn e g) then [] else ActList g @ [humanInput g])"
  by (simp add: round_body roundRest_proj piece_proj humanInput_def)

lemma round_consoleLog:
  "\<not> (isComputer (player1 g) \<and> isComputer (player2 g) \<and> pressedPowerHit g) \<Longrightarrow>
     consoleLog (round G e g) =
       (if returned (engineResultIn e g) then consoleLog g @ [ActList g @ [humanInput g]] else consoleLog g)"
  by (simp add: round_body roundRest_proj piece_proj humanInput_def)

lemma round_codeViewerOutput:
  "\<not> (isComputer (player1 g) \<and> isComputer (player2 g) \<and> pressedPowerHit g) \<Longrightarrow>
     codeViewerOutput (round G e g) =
       (if returned (engineResultIn e g)
        then logToNotepad (notepadMessage (ActList g @ [humanInput g]) (isComputer (player1 g))) (codeViewerOutput g)
        else codeViewerOutput g)"
  by (simp add: round_body roundRest_proj piece_proj humanInput_def)

lemma round_isComputer:
  "isComputer (player1 (round G r g)) = isComputer (player1 g)"
  "isComputer (player2 (round G r g)) = isComputer (player2 g)"
  by (simp_all add: round_def Let_def roundRest_proj piece_proj)

lemma round_scores:
  "scores0 (round G r g) = scores0 g" "scores1 (round G r g) = scores1 g"
  by (simp_all add: round_def Let_def roundRest_proj piece_proj)

lemma round_tieFree: "tieFree g \<Longrightarrow> tieFree (round G e g)"
proof (cases "isComputer (player1 g) \<and> isComputer (player2 g) \<and> pressedPowerHit g")
  case True
  assume "tieFree g"
  then show ?thesis using round_early[OF True] by (simp add: tieFree_def)
next
  case False
  assume t: "tieFree g"
  have "tieFree (if returned (engineResultIn e g)
      then flushActList ((recordInput (mergeKeyboards g))\<lparr>ball := ballAfter (engineResultIn e g)\<rparr>)
      else (recordInput (mergeKeyboards g))\<lparr>ball := ballAfter (engineResultIn e g)\<rparr>)"
    using t by (simp add: tieFree_def piece_proj)
  then show ?thesis unfolding round_body[OF False] by (rule roundRest_tieFree)
qed

subsection \<open>Invariants of the game loop\<close>

lemma runState_humanChosen: "humanChosen g \<Longrightarrow> humanChosen (runState G r g)"
proof (cases "state g")
  case Intro
  then show ?thesis using intro_proj(7)[of g] by (auto simp: humanChosen_def runState_def)
next
  case Menu
  then show ?thesis using menu_state[of g] by (auto simp: humanChosen_def runState_def)
next
  case AfterMenuSelection
  assume "humanChosen g"
  with AfterMenuSelection show ?thesis by (simp add: humanChosen_def runState_def afterMenuSelection_proj)
next
  case BeforeStartOfNewGame
  assume "humanChosen g"
  with BeforeStartOfNewGame show ?thesis by (simp add: humanChosen_def runState_def beforeStartOfNewGame_proj)
next
  case StartOfNewGame
  assume "humanChosen g"
  with StartOfNewGame show ?thesis by (simp add: humanChosen_def runState_def startOfNewGame_proj)
next
  case Round
  assume "humanChosen g"
  with Round show ?thesis by (simp add: humanChosen_def runState_def round_isComputer)
next
  case AfterEndOfRound
  assume "humanChosen g"
  with AfterEndOfRound show ?thesis by (simp add: humanChosen_def runState_def afterEndOfRound_proj)
next
  case BeforeStartOfNextRound
  assume "humanChosen g"
  with BeforeStartOfNextRound show ?thesis by (simp add: humanChosen_def runState_def beforeStartOfNextRound_proj)
qed

lemma gameLoop_humanChosen: "humanChosen g \<Longrightarrow> humanChosen (gameLoop G r g)"
proof (cases "gameLoopHead g")
  case (Inl g')
  assume "humanChosen g"
  with gameLoopHead_keeps(2)[OF Inl] Inl show ?thesis by (simp add: gameLoop_def humanChosen_def)
next
  case (Inr g')
  assume "humanChosen g"
  with gameLoopHead_keeps(1)[OF Inr] have "humanChosen g'" by (simp add: humanChosen_def)
  then show ?thesis using Inr by (simp add: gameLoop_def runState_humanChosen)
qed

lemma step_humanChosen: "humanChosen g \<Longrightarrow> humanChosen (step G g e)"
  by (cases e) (simp_all add: gameLoop_humanChosen, simp_all add: humanChosen_def restart_def)

lemma new_humanChosen: "humanChosen (PikachuVolleyball_new p1 p2 b super page)"
  by (simp add: humanChosen_def PikachuVolleyball_new_def)

lemma reachable_humanChosen: "reachable G g \<Longrightarrow> humanChosen g"
  by (induction rule: reachable.induct) (simp_all add: new_humanChosen step_humanChosen)

lemma runState_tieFree: "tieFree g \<Longrightarrow> tieFree (runState G r g)"
proof (cases "state g")
  case StartOfNewGame
  assume "tieFree g"
  then show ?thesis using StartOfNewGame startOfNewGame_gameEnded[of g]
    by (auto simp: runState_def tieFree_def)
next
  case Round
  assume "tieFree g"
  then show ?thesis using Round by (simp add: runState_def round_tieFree)
qed (simp_all add: runState_def tieFree_def intro_proj menu_proj afterMenuSelection_proj
      beforeStartOfNewGame_proj afterEndOfRound_proj beforeStartOfNextRound_proj)

lemma gameLoop_tieFree: "tieFree g \<Longrightarrow> tieFree (gameLoop G r g)"
proof (cases "gameLoopHead g")
  case (Inl g')
  assume "tieFree g"
  with gameLoopHead_keeps(2)[OF Inl] Inl show ?thesis by (simp add: gameLoop_def tieFree_def)
next
  case (Inr g')
  assume "tieFree g"
  with gameLoopHead_keeps(1)[OF Inr] have "tieFree g'" by (simp add: tieFree_def)
  then show ?thesis using Inr by (simp add: gameLoop_def runState_tieFree)
qed

lemma step_tieFree: "tieFree g \<Longrightarrow> tieFree (step G g e)"
  by (cases e) (simp_all add: gameLoop_tieFree, simp_all add: tieFree_def restart_def)

subsection \<open>The log along an execution\<close>

lemma runState_ActList:
  assumes "humanChosen g"
  shows "ActList (runState G r g) =
    (if state g = Round then (if returned (engineResultIn r g) then [] else ActList g @ [humanInput g])
     else if state g = BeforeStartOfNextRound \<and> frameTotal_beforeStartOfNextRound \<le> frameCounter g + 1 then []
     else ActList g)"
proof (cases "state g")
  case Round
  with assms have "\<not> (isComputer (player1 g) \<and> isComputer (player2 g) \<and> pressedPowerHit g)"
    by (auto simp add: humanChosen_def)
  from round_ActList[OF this] Round show ?thesis by (simp add: runState_def)
qed (simp_all add: runState_def intro_proj menu_proj afterMenuSelection_proj
      beforeStartOfNewGame_proj startOfNewGame_proj afterEndOfRound_proj beforeStartOfNextRound_proj)

lemma runState_consoleLog:
  assumes "humanChosen g"
  shows "consoleLog (runState G r g) =
    (if state g = Round \<and> returned (engineResultIn r g) then consoleLog g @ [ActList g @ [humanInput g]]
     else consoleLog g)"
proof (cases "state g")
  case Round
  with assms have "\<not> (isComputer (player1 g) \<and> isComputer (player2 g) \<and> pressedPowerHit g)"
    by (auto simp add: humanChosen_def)
  from round_consoleLog[OF this] Round show ?thesis by (simp add: runState_def)
qed (simp_all add: runState_def intro_proj menu_proj afterMenuSelection_proj
      beforeStartOfNewGame_proj startOfNewGame_proj afterEndOfRound_proj beforeStartOfNextRound_proj)

lemma step_ActList:
  assumes "humanChosen g"
  shows "ActList (step G g e) =
    (if emptiesActList g e then []
     else case roundCalledOn g e of Some g' \<Rightarrow> ActList g @ [humanInput g'] | None \<Rightarrow> ActList g)"
proof (cases e)
  case (Frame r)
  show ?thesis
  proof (cases "gameLoopHead g")
    case (Inl g')
    with gameLoopHead_keeps(2)[OF Inl] Frame show ?thesis
      by (simp add: gameLoop_def emptiesActList_def flushes_def roundCalledOn_def)
  next
    case (Inr g')
    note k = gameLoopHead_keeps(1)[OF Inr]
    from assms k have hc: "humanChosen g'" by (simp add: humanChosen_def)
    then have ne: "state g' = Round \<Longrightarrow> \<not> (isComputer (player1 g') \<and> isComputer (player2 g') \<and> pressedPowerHit g')"
      by (auto simp add: humanChosen_def)
    show ?thesis using Frame Inr k ne
      by (auto simp add: gameLoop_def runState_ActList[OF hc] emptiesActList_def flushes_def roundCalledOn_def)
  qed
qed (simp_all add: emptiesActList_def roundCalledOn_def restart_def)

lemma step_consoleLog:
  assumes "humanChosen g"
  shows "consoleLog (step G g e) =
    (case roundCalledOn g e of
       Some g' \<Rightarrow> if flushes g e then consoleLog g @ [ActList g @ [humanInput g']] else consoleLog g
     | None \<Rightarrow> consoleLog g)"
proof (cases e)
  case (Frame r)
  show ?thesis
  proof (cases "gameLoopHead g")
    case (Inl g')
    with gameLoopHead_keeps(2)[OF Inl] Frame show ?thesis
      by (simp add: gameLoop_def flushes_def roundCalledOn_def)
  next
    case (Inr g')
    note k = gameLoopHead_keeps(1)[OF Inr]
    from assms k have hc: "humanChosen g'" by (simp add: humanChosen_def)
    then have ne: "state g' = Round \<Longrightarrow> \<not> (isComputer (player1 g') \<and> isComputer (player2 g') \<and> pressedPowerHit g')"
      by (auto simp add: humanChosen_def)
    show ?thesis using Frame Inr k ne
      by (auto simp add: gameLoop_def runState_consoleLog[OF hc] flushes_def roundCalledOn_def)
  qed
qed (simp_all add: roundCalledOn_def restart_def)

lemma reachable_run: "reachable G g \<Longrightarrow> reachable G (run G g es)"
  by (induction es arbitrary: g) (simp_all add: reachable_step)

lemma step_lengths:
  assumes "humanChosen g" "length (ActList g) = n" "map length (consoleLog g) = fl"
  shows "length (ActList (step G g e)) =
      (if emptiesActList g e then 0 else if roundCalledOn g e \<noteq> None then n + 1 else n)"
    and "map length (consoleLog (step G g e)) = (if flushes g e then fl @ [n + 1] else fl)"
proof -
  have f: "flushes g e \<Longrightarrow> roundCalledOn g e \<noteq> None"
    by (auto simp: flushes_def split: event.splits option.splits)
  show "length (ActList (step G g e)) =
      (if emptiesActList g e then 0 else if roundCalledOn g e \<noteq> None then n + 1 else n)"
    using assms(2) by (auto simp add: step_ActList[OF assms(1)] split: option.splits)
  show "map length (consoleLog (step G g e)) = (if flushes g e then fl @ [n + 1] else fl)"
    using assms(2,3) f by (auto simp add: step_consoleLog[OF assms(1)] split: option.splits)
qed

lemma countTicks_lengths:
  assumes "reachable G g0" "length (ActList g0) = n0" "map length (consoleLog g0) = fl0"
    "countTicks G g0 n0 fl0 es = (g, n, fl)"
  shows "length (ActList g) = n \<and> map length (consoleLog g) = fl"
  using assms
proof (induction es arbitrary: g0 n0 fl0)
  case Nil
  then show ?case by simp
next
  case (Cons e es)
  have hc: "humanChosen g0" using Cons.prems(1) by (rule reachable_humanChosen)
  have r: "reachable G (step G g0 e)" using Cons.prems(1) by (rule reachable_step)
  show ?case
    using Cons.IH[OF r step_lengths[OF hc Cons.prems(2) Cons.prems(3), of G e]] Cons.prems(4)
    by simp
qed

subsection \<open>Logged snapshots are valid\<close>

lemma getInput_valid:
  "xDirection (getInput kb) \<in> {-1, 0, 1}" "yDirection (getInput kb) \<in> {-1, 0, 1}"
  "powerHit (getInput kb) \<in> {0, 1}"
  by (simp_all add: getInput_def Let_def)

lemma logicalOr_valid: "a \<in> S \<Longrightarrow> b \<in> S \<Longrightarrow> logicalOr a b \<in> S"
  by (simp add: logicalOr_def)

lemma mergeKeyboards_fields:
  "xDirection (keyboardArray0 (mergeKeyboards g)) =
     (if isComputer (player2 g) then logicalOr (xDirection (keyboardArray0 g)) (xDirection (keyboardArray1 g))
      else xDirection (keyboardArray0 g))"
  "yDirection (keyboardArray0 (mergeKeyboards g)) =
     (if isComputer (player2 g) then logicalOr (yDirection (keyboardArray0 g)) (yDirection (keyboardArray1 g))
      else yDirection (keyboardArray0 g))"
  "powerHit (keyboardArray0 (mergeKeyboards g)) =
     (if isComputer (player2 g) then logicalOr (powerHit (keyboardArray0 g)) (powerHit (keyboardArray1 g))
      else powerHit (keyboardArray0 g))"
  "xDirection (keyboardArray1 (mergeKeyboards g)) =
     (if isComputer (player1 g) then logicalOr (xDirection (keyboardArray0 g)) (xDirection (keyboardArray1 g))
      else xDirection (keyboardArray1 g))"
  "yDirection (keyboardArray1 (mergeKeyboards g)) =
     (if isComputer (player1 g) then logicalOr (yDirection (keyboardArray0 g)) (yDirection (keyboardArray1 g))
      else yDirection (keyboardArray1 g))"
  "powerHit (keyboardArray1 (mergeKeyboards g)) =
     (if isComputer (player1 g) then logicalOr (powerHit (keyboardArray0 g)) (powerHit (keyboardArray1 g))
      else powerHit (keyboardArray1 g))"
  by (simp_all add: mergeKeyboards_def Let_def logicalOr_def)

lemma humanInput_valid:
  assumes "xDirection (keyboardArray0 g) \<in> {-1, 0, 1}" "yDirection (keyboardArray0 g) \<in> {-1, 0, 1}"
    "powerHit (keyboardArray0 g) \<in> {0, 1}"
    "xDirection (keyboardArray1 g) \<in> {-1, 0, 1}" "yDirection (keyboardArray1 g) \<in> {-1, 0, 1}"
    "powerHit (keyboardArray1 g) \<in> {0, 1}"
  shows "validInput (humanInput g)"
  using assms logicalOr_valid[OF assms(1) assms(4)] logicalOr_valid[OF assms(2) assms(5)]
    logicalOr_valid[OF assms(3) assms(6)]
  by (simp add: humanInput_def validInput_def player1Input_def player2Input_def mergeKeyboards_fields)

lemma roundCalledOn_valid: "roundCalledOn g e = Some g' \<Longrightarrow> validInput (humanInput g')"
proof -
  assume a: "roundCalledOn g e = Some g'"
  then have "gameLoopHead g = Inr g'"
    by (auto simp: roundCalledOn_def split: event.splits sum.splits if_splits)
  from gameLoopHead_keeps(1)[OF this] getInput_valid[of "keyboardArray0 g"]
    getInput_valid[of "keyboardArray1 g"] show ?thesis
    by (intro humanInput_valid) simp_all
qed

lemma step_validLogs:
  assumes "humanChosen g" "validLogs g"
  shows "validLogs (step G g e)"
  using assms(2) roundCalledOn_valid[of g e]
  by (auto simp add: validLogs_def step_ActList[OF assms(1)] step_consoleLog[OF assms(1)] split: option.splits if_splits)

lemma reachable_validLogs: "reachable G g \<Longrightarrow> validLogs g"
proof (induction rule: reachable.induct)
  case (reachable_new p1 p2 b super page)
  show ?case by (simp add: validLogs_def PikachuVolleyball_new_def)
next
  case (reachable_step g e)
  then show ?case using step_validLogs reachable_humanChosen by blast
qed

subsection \<open>Eighteen tokens a side\<close>

lemma enc_inj:
  assumes u: "validInput u" and v: "validInput v" and e: "encodeUserInput u p = encodeUserInput v p"
  shows "u = v"
proof -
  from u obtain t where t: "encodeUserInput u p = Str t" using enc_total by blast
  with e have t': "encodeUserInput v p = Str t" by simp
  from enc_fields[OF u t] enc_fields[OF v t'] show "u = v" by simp
qed

lemma validInput_enum:
  "{w. validInput w} = (\<lambda>(x, y, h). \<lparr>xDirection = x, yDirection = y, powerHit = h\<rparr>) ` ({-1, 0, 1} \<times> {-1, 0, 1} \<times> {0, 1})"
  (is "?L = ?f ` ?S")
proof (intro equalityI subsetI)
  fix w assume "w \<in> ?L"
  then have v: "validInput w" by simp
  have "w = ?f (xDirection w, yDirection w, powerHit w)" by simp
  moreover have "(xDirection w, yDirection w, powerHit w) \<in> ?S"
    using v unfolding validInput_def by (intro SigmaI) simp_all
  ultimately show "w \<in> ?f ` ?S" by (rule image_eqI)
next
  fix w assume "w \<in> ?f ` ?S"
  then obtain p where p: "w = ?f p" "p \<in> ?S" by (rule imageE)
  obtain x y h where xyh: "p = (x, y, h)" by (cases p) auto
  from p(2) have "x \<in> {-1, 0, 1}" "y \<in> {-1, 0, 1}" "h \<in> {0, 1}"
    unfolding xyh by (simp_all only: mem_Sigma_iff)
  then have "validInput w" unfolding p(1) xyh validInput_def by simp
  then show "w \<in> ?L" by simp
qed

lemma validInput_card: "card {w. validInput w} = 18"
proof -
  have inj: "inj_on (\<lambda>(x, y, h). \<lparr>xDirection = x, yDirection = y, powerHit = h\<rparr>) ({-1, 0, 1} \<times> {-1, 0, 1} \<times> {0, 1::int})"
    by (rule inj_onI) (simp add: split_def prod_eq_iff)
  have "card ({-1, 0, 1::int} \<times> {-1, 0, 1::int} \<times> {0, 1::int}) = 18"
    by (simp add: card_cartesian_product)
  then show ?thesis unfolding validInput_enum using card_image[OF inj] by simp
qed

subsection \<open>The letters of a token and the format of the code\<close>

lemma enc_symbol:
  assumes "validInput u"
  shows "encodeUserInput u 1 = Str (''-'' @ inputSymbol u @ ''/'')"
    and "encodeUserInput u 2 = Str (''-/'' @ inputSymbol u)"
proof -
  from assms obtain x y h where u: "u = \<lparr>xDirection = x, yDirection = y, powerHit = h\<rparr>"
    and x: "x = -1 \<or> x = 0 \<or> x = 1" and y: "y = -1 \<or> y = 0 \<or> y = 1" and h: "h = 0 \<or> h = 1"
    by (rule validInput_cases)
  from x y h show "encodeUserInput u 1 = Str (''-'' @ inputSymbol u @ ''/'')"
    unfolding u by (elim disjE) (simp_all add: encodeUserInput_def inputSymbol_def)
  from x y h show "encodeUserInput u 2 = Str (''-/'' @ inputSymbol u)"
    unfolding u by (elim disjE) (simp_all add: encodeUserInput_def inputSymbol_def)
qed

lemma inputSymbol_chars: "set (inputSymbol u) \<subseteq> set ''UDLRH''"
  by (auto simp add: inputSymbol_def)

lemma inputSymbol_empty: "validInput u \<Longrightarrow> inputSymbol u = [] \<longleftrightarrow> neutralInput u"
  by (auto simp: inputSymbol_def neutralInput_def validInput_def)

lemma side_tokens_meet:
  assumes u: "validInput u" and v: "validInput v" and e: "encodeUserInput u 1 = encodeUserInput v 2"
  shows "neutralInput u \<and> neutralInput v"
proof -
  from e have eq: "inputSymbol u @ ''/'' = ''/'' @ inputSymbol v"
    by (simp add: enc_symbol[OF u] enc_symbol[OF v])
  have "inputSymbol u = []"
  proof (cases "inputSymbol u")
    case Nil
    then show ?thesis .
  next
    case (Cons c r)
    with eq have "c = CHR ''/''" by simp
    moreover have "c \<in> set ''UDLRH''" using inputSymbol_chars[of u] Cons by auto
    ultimately show ?thesis by simp
  qed
  moreover from this eq have "inputSymbol v = []" by simp
  ultimately show ?thesis using inputSymbol_empty[OF u] inputSymbol_empty[OF v] by simp
qed

lemma side_logs_meet:
  assumes "\<forall>a\<in>set l1. validInput a" "\<forall>a\<in>set l2. validInput a"
    "encodeActList l1 1 = encodeActList l2 2"
  shows "(\<forall>a\<in>set l1. neutralInput a) \<and> (\<forall>a\<in>set l2. neutralInput a)"
  using assms
proof (induction l1 arbitrary: l2)
  case Nil
  then show ?case by (simp add: encodeActList_def)
next
  case (Cons a l1)
  then obtain b l2' where l2: "l2 = b # l2'" by (cases l2) (auto simp: encodeActList_def)
  from Cons.prems l2 have e: "encodeUserInput a 1 = encodeUserInput b 2"
    and r: "encodeActList l1 1 = encodeActList l2' 2" by (simp_all add: encodeActList_def)
  from Cons.prems l2 have va: "validInput a" and vb: "validInput b" by simp_all
  from Cons.IH[OF _ _ r] Cons.prems l2 side_tokens_meet[OF va vb e] show ?case by simp
qed

lemma serveCode_chars: "serveCode p s \<Longrightarrow> set s \<subseteq> set ''UDLRH-/0123456789''"
proof (induction rule: serveCode.induct)
  case serveCode_Nil
  show ?case by simp
next
  case (serveCode_run u symbol decimalDigits rest)
  have a: "set ''UDLRH-/'' \<subseteq> set ''UDLRH-/0123456789''" by simp
  have b: "set ''0123456789'' \<subseteq> set ''UDLRH-/0123456789''" by simp
  from enc_dash[OF serveCode_run.hyps(1,2)] have "set symbol \<subseteq> set ''UDLRH-/''" by blast
  then have s: "set symbol \<subseteq> set ''UDLRH-/0123456789''" using a by (rule subset_trans)
  have d: "set decimalDigits \<subseteq> set ''UDLRH-/0123456789''"
    using serveCode_run.hyps(4) b by (rule subset_trans)
  show ?case unfolding set_append using s d serveCode_run.IH by (intro Un_least)
qed

lemma concatLoop_nonempty: "concatLoop arr result current count \<noteq> []"
proof (induction arr arbitrary: result current count)
  case Nil
  show ?case by (cases current) (simp_all add: Number_toString_nonempty)
next
  case (Cons a arr)
  then show ?case by simp
qed

lemma concatListAsString_serveCode:
  assumes "\<forall>u\<in>set l. validInput u"
  shows "serveCode p (concatListAsString (encodeActList l p))"
proof (cases l)
  case Nil
  then show ?thesis by (simp add: concatListAsString_def encodeActList_def serveCode_Nil)
next
  case (Cons a as)
  have "\<forall>t\<in>set (encodeUserInput a p # map (\<lambda>u. encodeUserInput u p) as).
      \<exists>u. validInput u \<and> encodeUserInput u p = t"
    using assms Cons by auto
  from concatLoop_serveCode[OF this serveCode_Nil, of 1] Cons show ?thesis
    by (simp add: concatListAsString_def encodeActList_def)
qed

lemma concatListAsString_dash:
  assumes "\<forall>u\<in>set l. validInput u" "l \<noteq> []"
  shows "concatListAsString (encodeActList l p) = CHR ''-'' # drop 1 (concatListAsString (encodeActList l p))"
proof -
  from assms(2) obtain a as where l: "l = a # as" by (cases l) auto
  have ne: "concatListAsString (encodeActList l p) \<noteq> []"
    unfolding l by (simp add: concatListAsString_def encodeActList_def concatLoop_nonempty)
  with serveCode_hd[OF concatListAsString_serveCode[OF assms(1), of p]]
  have "hd (concatListAsString (encodeActList l p)) = CHR ''-''" by simp
  with ne show ?thesis by (cases "concatListAsString (encodeActList l p)") simp_all
qed

subsection \<open>The text on the page\<close>

lemma runState_codeViewerOutput:
  "codeViewerOutput (runState G e g) =
    (if state g = Round \<and> \<not> (isComputer (player1 g) \<and> isComputer (player2 g) \<and> pressedPowerHit g)
         \<and> returned (engineResultIn e g)
     then logToNotepad (notepadMessage (ActList g @ [humanInput g]) (isComputer (player1 g))) (codeViewerOutput g)
     else codeViewerOutput g)"
proof (cases "state g")
  case Round
  show ?thesis
  proof (cases "isComputer (player1 g) \<and> isComputer (player2 g) \<and> pressedPowerHit g")
    case True
    with Round show ?thesis by (simp add: runState_def round_early)
  next
    case False
    with Round round_codeViewerOutput[OF False] show ?thesis by (simp add: runState_def)
  qed
qed (simp_all add: runState_def intro_proj menu_proj afterMenuSelection_proj
      beforeStartOfNewGame_proj startOfNewGame_proj afterEndOfRound_proj beforeStartOfNextRound_proj)

lemma step_codeViewerOutput:
  "codeViewerOutput (step G g e) =
    (case roundCalledOn g e of
       Some g' \<Rightarrow>
         if flushes g e
         then logToNotepad (notepadMessage (ActList g @ [humanInput g']) (isComputer (player1 g))) (codeViewerOutput g)
         else codeViewerOutput g
     | None \<Rightarrow> codeViewerOutput g)"
proof (cases e)
  case (Frame r)
  show ?thesis
  proof (cases "gameLoopHead g")
    case (Inl g')
    with gameLoopHead_keeps(2)[OF Inl] Frame show ?thesis
      by (simp add: gameLoop_def flushes_def roundCalledOn_def)
  next
    case (Inr g')
    note k = gameLoopHead_keeps(1)[OF Inr]
    show ?thesis using Frame Inr k
      by (auto simp add: gameLoop_def runState_codeViewerOutput flushes_def roundCalledOn_def)
  qed
qed (simp_all add: roundCalledOn_def restart_def)

subsection \<open>Round ticks and the end of a round\<close>

lemma roundCalledOn_Frame:
  assumes "roundCalledOn g e = Some g'"
  obtains engine where "e = Frame engine" "gameLoopHead g = Inr g'" "state g' = Round"
  using assms by (auto simp: roundCalledOn_def split: event.splits sum.splits if_splits)

lemma round_tick_effect:
  assumes hc: "humanChosen g" and rc: "roundCalledOn g (Frame engine) = Some g'"
  shows "\<not> (isComputer (player1 g') \<and> isComputer (player2 g'))"
    and "flushes g (Frame engine) = returned (engineResultIn engine g')"
    and "ActList (step G g (Frame engine)) =
      (if returned (engineResultIn engine g') then [] else ActList g @ [humanInput g'])"
    and "consoleLog (step G g (Frame engine)) =
      (if returned (engineResultIn engine g') then consoleLog g @ [ActList g @ [humanInput g']]
       else consoleLog g)"
proof -
  from rc have h: "gameLoopHead g = Inr g'" and st: "state g' = Round"
    by (auto elim: roundCalledOn_Frame)
  note k = gameLoopHead_keeps(1)[OF h]
  from hc k st show nb: "\<not> (isComputer (player1 g') \<and> isComputer (player2 g'))"
    by (auto simp: humanChosen_def)
  then show fl: "flushes g (Frame engine) = returned (engineResultIn engine g')"
    using rc by (auto simp: flushes_def)
  have em: "emptiesActList g (Frame engine) = returned (engineResultIn engine g')"
    using fl h st by (simp add: emptiesActList_def)
  show "ActList (step G g (Frame engine)) =
      (if returned (engineResultIn engine g') then [] else ActList g @ [humanInput g'])"
    using step_ActList[OF hc, of G "Frame engine"] rc em by simp
  show "consoleLog (step G g (Frame engine)) =
      (if returned (engineResultIn engine g') then consoleLog g @ [ActList g @ [humanInput g']]
       else consoleLog g)"
    using step_consoleLog[OF hc, of G "Frame engine"] rc fl by simp
qed

lemma roundRest_scoring:
  assumes "\<not> gameEnded g" "\<not> isPracticeMode g" "\<not> roundEnded g"
  shows "isPlayer2Serve (roundRest G True p g) = (punchEffectX (ball g) < G)"
    and "roundEnded (roundRest G True p g)"
    and "gameEnded (roundRest G True p g) =
      (if punchEffectX (ball g) < G then winningScore g \<le> scores1 g else winningScore g \<le> scores0 g)"
    and "gameEnded (roundRest G True p g) \<Longrightarrow>
      isWinner (player1 (roundRest G True p g)) = (\<not> punchEffectX (ball g) < G) \<and>
      isWinner (player2 (roundRest G True p g)) = (punchEffectX (ball g) < G) \<and>
      Player.gameEnded (player1 (roundRest G True p g)) \<and> Player.gameEnded (player2 (roundRest G True p g))"
proof -
  have r: "roundRest G True p g =
    (if roundEnded (endOfRound G g) \<and> \<not> gameEnded (endOfRound G g)
     then (if slowMotionFramesLeft (endOfRound G g) = 0 then (endOfRound G g)\<lparr>state := AfterEndOfRound\<rparr>
           else endOfRound G g)
     else endOfRound G g)"
    using assms by (simp add: roundRest_def Let_def)
  show "isPlayer2Serve (roundRest G True p g) = (punchEffectX (ball g) < G)"
    unfolding r by (simp add: endOfRound_proj)
  show "roundEnded (roundRest G True p g)"
    unfolding r by (simp add: endOfRound_proj)
  show ge: "gameEnded (roundRest G True p g) =
      (if punchEffectX (ball g) < G then winningScore g \<le> scores1 g else winningScore g \<le> scores0 g)"
    unfolding r using assms(1) by (simp add: endOfRound_gameEnded)
  assume "gameEnded (roundRest G True p g)"
  then have e: "gameEnded (endOfRound G g)" unfolding r by (simp split: if_splits)
  from endOfRound_winner[OF assms(1) e] e
  show "isWinner (player1 (roundRest G True p g)) = (\<not> punchEffectX (ball g) < G) \<and>
      isWinner (player2 (roundRest G True p g)) = (punchEffectX (ball g) < G) \<and>
      Player.gameEnded (player1 (roundRest G True p g)) \<and> Player.gameEnded (player2 (roundRest G True p g))"
    unfolding r by simp
qed

lemma round_scoring:
  assumes ne: "\<not> (isComputer (player1 g) \<and> isComputer (player2 g) \<and> pressedPowerHit g)"
    and t: "returned (engineResultIn engine g)"
    and f: "\<not> isPracticeMode g" "\<not> roundEnded g" "\<not> gameEnded g"
  shows "isPlayer2Serve (round G engine g) = (punchEffectX (ballAfter (engineResultIn engine g)) < G)"
    and "roundEnded (round G engine g)"
    and "gameEnded (round G engine g) =
      (if punchEffectX (ballAfter (engineResultIn engine g)) < G
       then winningScore g \<le> scores1 g else winningScore g \<le> scores0 g)"
    and "gameEnded (round G engine g) \<Longrightarrow>
      isWinner (player1 (round G engine g)) = (\<not> punchEffectX (ballAfter (engineResultIn engine g)) < G) \<and>
      isWinner (player2 (round G engine g)) = (punchEffectX (ballAfter (engineResultIn engine g)) < G) \<and>
      Player.gameEnded (player1 (round G engine g)) \<and> Player.gameEnded (player2 (round G engine g))"
proof -
  define g3 where "g3 = flushActList ((recordInput (mergeKeyboards g))\<lparr>ball := ballAfter (engineResultIn engine g)\<rparr>)"
  have r: "round G engine g = roundRest G True (pressedPowerHit g) g3"
    using round_body[OF ne, of G engine] t by (simp add: g3_def)
  have p: "\<not> gameEnded g3" "\<not> isPracticeMode g3" "\<not> roundEnded g3"
    "ball g3 = ballAfter (engineResultIn engine g)"
    "winningScore g3 = winningScore g" "scores0 g3 = scores0 g" "scores1 g3 = scores1 g"
    using f by (simp_all add: g3_def piece_proj)
  note rr = roundRest_scoring[OF p(1,2,3), of G "pressedPowerHit g"]
  show "isPlayer2Serve (round G engine g) = (punchEffectX (ballAfter (engineResultIn engine g)) < G)"
    unfolding r using rr(1) p(4) by simp
  show "roundEnded (round G engine g)" unfolding r by (rule rr(2))
  show "gameEnded (round G engine g) =
      (if punchEffectX (ballAfter (engineResultIn engine g)) < G
       then winningScore g \<le> scores1 g else winningScore g \<le> scores0 g)"
    unfolding r using rr(3) p by simp
  assume "gameEnded (round G engine g)"
  then have "gameEnded (roundRest G True (pressedPowerHit g) g3)" unfolding r .
  from rr(4)[OF this] show "isWinner (player1 (round G engine g)) = (\<not> punchEffectX (ballAfter (engineResultIn engine g)) < G) \<and>
      isWinner (player2 (round G engine g)) = (punchEffectX (ballAfter (engineResultIn engine g)) < G) \<and>
      Player.gameEnded (player1 (round G engine g)) \<and> Player.gameEnded (player2 (round G engine g))"
    unfolding r using p(4) by simp
qed

subsection \<open>Scores and winners in reachable states\<close>

lemma runState_scores:
  "scores0 (runState G e g) = 0 \<or> scores0 (runState G e g) = scores0 g"
  "scores1 (runState G e g) = 0 \<or> scores1 (runState G e g) = scores1 g"
  by (cases "state g"; simp add: runState_def round_scores intro_def menu_def afterMenuSelection_def
      beforeStartOfNewGame_def startOfNewGame_def placeBall_def afterEndOfRound_def
      beforeStartOfNextRound_def Let_def)+

lemma gameLoopHead_scores:
  "gameLoopHead g = Inr g' \<Longrightarrow> scores0 g' = scores0 g \<and> scores1 g' = scores1 g"
  "gameLoopHead g = Inl g' \<Longrightarrow> scores0 g' = scores0 g \<and> scores1 g' = scores1 g"
  by (auto simp: gameLoopHead_def latchInputs_def Let_def split: if_splits)

lemma step_scores_zero:
  assumes "scores0 g = 0 \<and> scores1 g = 0"
  shows "scores0 (step G g e) = 0 \<and> scores1 (step G g e) = 0"
proof (cases e)
  case (Frame engine)
  show ?thesis
  proof (cases "gameLoopHead g")
    case (Inl g')
    with gameLoopHead_scores(2)[OF Inl] assms Frame show ?thesis by (simp add: gameLoop_def)
  next
    case (Inr g')
    with gameLoopHead_scores(1)[OF Inr] assms Frame runState_scores[of G engine g']
    show ?thesis by (auto simp add: gameLoop_def)
  qed
qed (simp_all add: assms restart_def)

lemma reachable_scores_zero: "reachable G g \<Longrightarrow> scores0 g = 0 \<and> scores1 g = 0"
proof (induction rule: reachable.induct)
  case (reachable_new p1 p2 b super page)
  show ?case by (simp add: PikachuVolleyball_new_def)
next
  case (reachable_step g e)
  then show ?case by (simp add: step_scores_zero)
qed

lemma reachable_tieFree: "reachable G g \<Longrightarrow> tieFree g"
proof (induction rule: reachable.induct)
  case (reachable_new p1 p2 b super page)
  show ?case by (simp add: PikachuVolleyball_new_def tieFree_def)
next
  case (reachable_step g e)
  then show ?case by (simp add: step_tieFree)
qed

subsection \<open>Polling a keyboard\<close>

lemma powerHitPressed_holdKeys:
  "powerHitPressed (holdKeys kb ks) = powerHitPressed (holdKeys kb' ks)"
  by (cases ks) (simp add: powerHitPressed_def)

lemma getInput_powerHit:
  "powerHit (getInput kb) = (if powerHitPressed kb \<and> \<not> powerHitKeyIsDownPrevious kb then 1 else 0)"
  "powerHitKeyIsDownPrevious (getInput kb) = powerHitPressed kb"
  by (auto simp add: getInput_def Let_def)

lemma holdKeys_previous: "powerHitKeyIsDownPrevious (holdKeys kb ks) = powerHitKeyIsDownPrevious kb"
  by (cases ks) simp

lemma pollKeyboard_length: "length (pollKeyboard kb frames) = length frames"
  by (induction frames arbitrary: kb) (simp_all add: Let_def)

lemma pollKeyboard_powerHit:
  "i < length frames \<Longrightarrow>
    powerHit (pollKeyboard kb frames ! i) =
      (if powerHitPressed (holdKeys kb (frames ! i))
          \<and> \<not> (if i = 0 then powerHitKeyIsDownPrevious kb
                 else powerHitPressed (holdKeys kb (frames ! (i - 1))))
       then 1 else 0)"
proof (induction frames arbitrary: kb i)
  case Nil
  then show ?case by simp
next
  case (Cons ks frames)
  show ?case
  proof (cases i)
    case 0
    then show ?thesis by (simp add: Let_def getInput_powerHit holdKeys_previous)
  next
    case (Suc j)
    with Cons.prems have j: "j < length frames" by simp
    let ?kb' = "getInput (holdKeys kb ks)"
    have p: "powerHitKeyIsDownPrevious ?kb' = powerHitPressed (holdKeys kb ks)"
      by (simp add: getInput_powerHit)
    have h: "\<And>fr. powerHitPressed (holdKeys ?kb' fr) = powerHitPressed (holdKeys kb fr)"
      by (rule powerHitPressed_holdKeys)
    show ?thesis
    proof (cases j)
      case 0
      with Suc Cons.IH[OF j, of ?kb'] p h show ?thesis by (simp add: Let_def)
    next
      case (Suc k)
      with \<open>i = Suc j\<close> Cons.IH[OF j, of ?kb'] h show ?thesis by (simp add: Let_def)
    qed
  qed
qed

subsection \<open>Merged keyboards\<close>

lemma logicalOr_bit: "a \<in> {0, 1} \<Longrightarrow> b \<in> {0, 1} \<Longrightarrow> logicalOr a b = (if a = 1 \<or> b = 1 then 1 else 0)"
  by (auto simp: logicalOr_def)

lemma round_engine_cong:
  assumes "e1 (keyboardArray0 (mergeKeyboards g)) (keyboardArray1 (mergeKeyboards g))
         = e2 (keyboardArray0 (mergeKeyboards g)) (keyboardArray1 (mergeKeyboards g))"
  shows "round G e1 g = round G e2 g"
proof (cases "isComputer (player1 g) \<and> isComputer (player2 g) \<and> pressedPowerHit g")
  case True
  then show ?thesis by (simp add: round_early)
next
  case False
  have "engineResultIn e1 g = engineResultIn e2 g" using assms by (simp add: engineResultIn_def)
  then show ?thesis by (simp add: round_body[OF False])
qed

section \<open>The claims\<close>

text \<open>
  Claim C1. For the log of five snapshots of side 1, three ticks of \<open>(-1, 0, 0)\<close> followed
  by two ticks of \<open>(0, 0, 1)\<close>, the string the encoder produces (the tokens of
  \<^verbatim>\<open>encodeActList\<close>, run-length compressed by \<^verbatim>\<open>concatListAsString\<close>) is \<open>-L/3-H/2\<close>.
\<close>

theorem C1_example_encodes: "concatListAsString (encodeActList exampleLog 1) = ''-L/3-H/2''"
  by (simp add: exampleLog_def concatListAsString_def encodeActList_def encodeUserInput_def
      Number_toString.simps digitChar_def)

text \<open>
  Claim C2. For each side, every one of the 18 valid combinations of direction and power
  hit has exactly one token, a string; two different valid combinations of one side never
  share a token (so a side has 18 tokens); \<^verbatim>\<open>encodeUserInput\<close> falls through to
  \<^verbatim>\<open>undefined\<close> exactly outside the valid combinations; and no snapshot of a log the game
  ever holds or encodes falls through.
\<close>

theorem C2_tokens_total_injective:
  assumes "playerNum = 1 \<or> playerNum = 2"
  shows "(validInput u \<longrightarrow> (\<exists>t. encodeUserInput u playerNum = Str t))
    \<and> (validInput u \<and> validInput v \<and> encodeUserInput u playerNum = encodeUserInput v playerNum \<longrightarrow> u = v)
    \<and> (encodeUserInput u playerNum = Undefined \<longleftrightarrow> \<not> validInput u)
    \<and> card {w. validInput w} = 18
    \<and> card ((\<lambda>w. encodeUserInput w playerNum) ` {w. validInput w}) = 18
    \<and> (reachable G g \<longrightarrow>
         (\<forall>a\<in>set (ActList g). encodeUserInput a playerNum \<noteq> Undefined)
         \<and> (\<forall>l\<in>set (consoleLog g). \<forall>a\<in>set l. encodeUserInput a playerNum \<noteq> Undefined))"
proof -
  have "inj_on (\<lambda>w. encodeUserInput w playerNum) {w. validInput w}"
    by (auto simp: inj_on_def intro: enc_inj)
  then have "card ((\<lambda>w. encodeUserInput w playerNum) ` {w. validInput w}) = 18"
    by (simp add: card_image validInput_card)
  moreover have "reachable G g \<longrightarrow>
         (\<forall>a\<in>set (ActList g). encodeUserInput a playerNum \<noteq> Undefined)
         \<and> (\<forall>l\<in>set (consoleLog g). \<forall>a\<in>set l. encodeUserInput a playerNum \<noteq> Undefined)"
    using reachable_validLogs[of G g] by (auto simp: validLogs_def enc_undef)
  ultimately show ?thesis
    using enc_total[of u playerNum] enc_inj[of u v playerNum] enc_undef[of u playerNum] validInput_card
    by blast
qed

theorem C2_witness:
  "encodeUserInput \<lparr>xDirection = -1, yDirection = 0, powerHit = 0\<rparr> 1 = Str ''-L/''
   \<and> encodeUserInput \<lparr>xDirection = -1, yDirection = 0, powerHit = 0\<rparr> 1
       \<noteq> encodeUserInput \<lparr>xDirection = 0, yDirection = 0, powerHit = 1\<rparr> 1
   \<and> length (ActList (run 216 exampleGame twoTicksLeft)) = 2
   \<and> encodeUserInput (ActList (run 216 exampleGame twoTicksLeft) ! 0) 1 \<noteq> Undefined"
proof -
  have r: "reachable 216 (run 216 exampleGame twoTicksLeft)"
    unfolding exampleGame_def by (rule reachable_run[OF reachable_new])
  have l: "length (ActList (run 216 exampleGame twoTicksLeft)) = 2" by code_simp
  have v: "validInput \<lparr>xDirection = -1, yDirection = 0, powerHit = 0\<rparr>"
    "validInput \<lparr>xDirection = 0, yDirection = 0, powerHit = 1\<rparr>"
    by (simp_all add: validInput_def)
  have e: "encodeUserInput \<lparr>xDirection = -1, yDirection = 0, powerHit = 0\<rparr> 1 = Str ''-L/''"
    by (simp add: encodeUserInput_def)
  from C2_tokens_total_injective[of 1 "\<lparr>xDirection = -1, yDirection = 0, powerHit = 0\<rparr>"
      "\<lparr>xDirection = 0, yDirection = 0, powerHit = 1\<rparr>" 216 "run 216 exampleGame twoTicksLeft"]
    r l v e
  show ?thesis by auto
qed

text \<open>
  Claim C3, as the specification states it, fails: the neutral snapshot \<open>(0, 0, 0)\<close> has the
  same token \<open>-/\<close> on both sides.
\<close>

theorem C3_counterexample:
  "validInput \<lparr>xDirection = 0, yDirection = 0, powerHit = 0\<rparr>
   \<and> encodeUserInput \<lparr>xDirection = 0, yDirection = 0, powerHit = 0\<rparr> 1 = Str ''-/''
   \<and> encodeUserInput \<lparr>xDirection = 0, yDirection = 0, powerHit = 0\<rparr> 2 = Str ''-/''"
  by (simp add: validInput_def encodeUserInput_def)

text \<open>
  Claim C3, amended. For every valid snapshot the side-1 token is a dash, the snapshot's
  letters and a slash, and the side-2 token is a dash, a slash and the same letters. The
  two tokens of a snapshot are equal only for the neutral snapshot, which has no letters;
  a side-1 token of a valid snapshot equals a side-2 token of a valid snapshot only when
  both snapshots are neutral; so the token lists of a side-1 log and of a side-2 log
  coincide only when every snapshot of both logs is neutral, and the side can be read
  from the tokens of every log that holds a snapshot that is not neutral.
\<close>

theorem C3_side_tokens:
  assumes "validInput u"
  shows "encodeUserInput u 1 = Str (''-'' @ inputSymbol u @ ''/'')
    \<and> encodeUserInput u 2 = Str (''-/'' @ inputSymbol u)
    \<and> set (inputSymbol u) \<subseteq> set ''UDLRH''
    \<and> (inputSymbol u = [] \<longleftrightarrow> neutralInput u)
    \<and> (encodeUserInput u 1 = encodeUserInput u 2 \<longleftrightarrow> neutralInput u)
    \<and> (validInput v \<and> encodeUserInput u 1 = encodeUserInput v 2 \<longrightarrow> neutralInput u \<and> neutralInput v)
    \<and> ((\<forall>a\<in>set l1. validInput a) \<and> (\<forall>a\<in>set l2. validInput a)
          \<and> encodeActList l1 1 = encodeActList l2 2
        \<longrightarrow> (\<forall>a\<in>set l1. neutralInput a) \<and> (\<forall>a\<in>set l2. neutralInput a))"
proof -
  have same: "encodeUserInput u 1 = encodeUserInput u 2 \<longleftrightarrow> neutralInput u"
  proof
    assume "encodeUserInput u 1 = encodeUserInput u 2"
    with side_tokens_meet[OF assms assms] show "neutralInput u" by simp
  next
    assume "neutralInput u"
    then have "inputSymbol u = []" using inputSymbol_empty[OF assms] by simp
    then show "encodeUserInput u 1 = encodeUserInput u 2"
      by (simp add: enc_symbol[OF assms])
  qed
  have meet: "validInput v \<and> encodeUserInput u 1 = encodeUserInput v 2 \<longrightarrow> neutralInput u \<and> neutralInput v"
    using side_tokens_meet[OF assms, of v] by blast
  have logs: "(\<forall>a\<in>set l1. validInput a) \<and> (\<forall>a\<in>set l2. validInput a)
          \<and> encodeActList l1 1 = encodeActList l2 2
        \<longrightarrow> (\<forall>a\<in>set l1. neutralInput a) \<and> (\<forall>a\<in>set l2. neutralInput a)"
    using side_logs_meet[of l1 l2] by blast
  show ?thesis
    using enc_symbol[OF assms] inputSymbol_chars[of u] inputSymbol_empty[OF assms] same meet logs
    by (intro conjI)
qed

theorem C3_witness:
  "encodeUserInput \<lparr>xDirection = -1, yDirection = 1, powerHit = 1\<rparr> 1 = Str ''-DLH/''
   \<and> encodeUserInput \<lparr>xDirection = -1, yDirection = 1, powerHit = 1\<rparr> 2 = Str ''-/DLH''
   \<and> encodeUserInput \<lparr>xDirection = -1, yDirection = 1, powerHit = 1\<rparr> 1
       \<noteq> encodeUserInput \<lparr>xDirection = -1, yDirection = 1, powerHit = 1\<rparr> 2
   \<and> encodeUserInput \<lparr>xDirection = -1, yDirection = 1, powerHit = 1\<rparr> 1
       \<noteq> encodeUserInput \<lparr>xDirection = 0, yDirection = 0, powerHit = 0\<rparr> 2"
proof -
  have v: "validInput \<lparr>xDirection = -1, yDirection = 1, powerHit = 1\<rparr>"
    "validInput \<lparr>xDirection = 0, yDirection = 0, powerHit = 0\<rparr>"
    by (simp_all add: validInput_def)
  have n: "\<not> neutralInput \<lparr>xDirection = -1, yDirection = 1, powerHit = 1\<rparr>"
    by (simp add: neutralInput_def)
  have s: "inputSymbol \<lparr>xDirection = -1, yDirection = 1, powerHit = 1\<rparr> = ''DLH''"
    by (simp add: inputSymbol_def)
  from C3_side_tokens[OF v(1), of "\<lparr>xDirection = 0, yDirection = 0, powerHit = 0\<rparr>" "[]" "[]"] v(2) n s
  show ?thesis by auto
qed

text \<open>
  Claim C4. For every \<open>N \<ge> 1\<close>, run-length compressing a list of \<open>N\<close> copies of one token
  gives exactly the one run made of the token followed by \<open>N\<close> in decimal; and compressing
  a list of tokens in which no two neighbours are equal gives one run per token, each the
  token followed by the count \<open>1\<close>, in the order of the list.
\<close>

theorem C4_run_length:
  "(1 \<le> N \<longrightarrow> concatListAsString (replicate N (Str t)) = t @ Number_toString N)
   \<and> (distinct_adj ts \<longrightarrow>
        concatListAsString (map Str ts) = concat (map (\<lambda>t. t @ ''1'') ts)
        \<and> length (map (\<lambda>t. t @ ''1'') ts) = length ts)"
proof (intro conjI impI)
  assume "1 \<le> N"
  then obtain m where "N = Suc m" by (cases N) auto
  then show "concatListAsString (replicate N (Str t)) = t @ Number_toString N"
    by (simp add: concatListAsString_def concatLoop_replicate)
next
  assume d: "distinct_adj ts"
  show "concatListAsString (map Str ts) = concat (map (\<lambda>t. t @ ''1'') ts)"
  proof (cases ts)
    case Nil
    then show ?thesis by (simp add: concatListAsString_def)
  next
    case (Cons a as)
    have "distinct_adj (map Str ts)" using d by (simp add: distinct_adj_map_iff inj_on_def)
    then show ?thesis using Cons
      by (simp add: concatListAsString_def concatLoop_distinct_adj
          Number_toString_1[unfolded One_nat_def] comp_def del: distinct_adj_Cons)
  qed
next
  show "length (map (\<lambda>t. t @ ''1'') ts) = length ts" by simp
qed

theorem C4_witness:
  "concatListAsString (replicate 12 (Str ''-L/'')) = ''-L/12''
   \<and> concatListAsString (map Str [''-L/'', ''-H/'', ''-L/'']) = ''-L/1-H/1-L/1''"
proof -
  have n: "Number_toString 12 = ''12''" by (simp add: Number_toString.simps digitChar_def)
  have d: "distinct_adj [''-L/'', ''-H/'', ''-L/'']" by simp
  from C4_run_length[of 12 "''-L/''" "[''-L/'', ''-H/'', ''-L/'']"] n d
  show ?thesis by simp
qed

text \<open>
  Claim C5, as the specification states it, fails: the text handed to the page for the
  example log of side 1 is \<open>L/3-H/2\<close>, which begins with no token of either side.
\<close>

theorem C5_counterexample:
  "notepadMessage exampleLog False = ''L/3-H/2''
   \<and> \<not> serveCode 1 (notepadMessage exampleLog False)
   \<and> \<not> serveCode 2 (notepadMessage exampleLog False)"
proof -
  have m: "notepadMessage exampleLog False = ''L/3-H/2''"
    by (simp add: notepadMessage_def exampleLog_def concatListAsString_def encodeActList_def
        encodeUserInput_def Number_toString.simps digitChar_def)
  have "\<not> serveCode p ''L/3-H/2''" for p
    using serveCode_hd[of p "''L/3-H/2''"] by auto
  with m show ?thesis by simp
qed

text \<open>
  Claim C5, amended. For every log of valid snapshots the string the encoder produces
  (\<^verbatim>\<open>MsgOutput\<close>) is a concatenation of runs, each a token of that side followed by decimal
  digits, with all characters among \<open>U D L R H - /\<close> and the digits; the string handed to
  the page is that string without its first character, the leading dash of the first
  token. The page text changes only when the ball touches the ground in a round tick, and
  then to that string for a log that is not empty and holds valid snapshots only.
\<close>

theorem C5_presented_code:
  "((\<forall>u\<in>set actList. validInput u) \<longrightarrow>
      serveCode (if player1IsComputer then 2 else 1)
        (concatListAsString (encodeActList actList (if player1IsComputer then 2 else 1)))
      \<and> set (concatListAsString (encodeActList actList (if player1IsComputer then 2 else 1)))
          \<subseteq> set ''UDLRH-/0123456789''
      \<and> notepadMessage actList player1IsComputer
          = drop 1 (concatListAsString (encodeActList actList (if player1IsComputer then 2 else 1)))
      \<and> (actList \<noteq> [] \<longrightarrow>
            concatListAsString (encodeActList actList (if player1IsComputer then 2 else 1))
              = CHR ''-'' # notepadMessage actList player1IsComputer))
   \<and> (reachable G g \<and> flushes g e \<longrightarrow>
        (\<exists>g'. roundCalledOn g e = Some g'
           \<and> (\<forall>u\<in>set (ActList g @ [humanInput g']). validInput u)
           \<and> codeViewerOutput (step G g e)
               = logToNotepad (notepadMessage (ActList g @ [humanInput g']) (isComputer (player1 g)))
                   (codeViewerOutput g)))
   \<and> (\<not> flushes g e \<longrightarrow> codeViewerOutput (step G g e) = codeViewerOutput g)"
proof (intro conjI impI)
  assume v: "\<forall>u\<in>set actList. validInput u"
  show "serveCode (if player1IsComputer then 2 else 1)
        (concatListAsString (encodeActList actList (if player1IsComputer then 2 else 1)))"
    using v by (rule concatListAsString_serveCode)
  then show "set (concatListAsString (encodeActList actList (if player1IsComputer then 2 else 1)))
          \<subseteq> set ''UDLRH-/0123456789''"
    by (rule serveCode_chars)
  show m: "notepadMessage actList player1IsComputer
          = drop 1 (concatListAsString (encodeActList actList (if player1IsComputer then 2 else 1)))"
    by (simp add: notepadMessage_def Let_def)
  assume "actList \<noteq> []"
  from concatListAsString_dash[OF v this, of "if player1IsComputer then 2 else 1"]
  show "concatListAsString (encodeActList actList (if player1IsComputer then 2 else 1))
              = CHR ''-'' # notepadMessage actList player1IsComputer"
    unfolding m .
next
  assume a: "reachable G g \<and> flushes g e"
  then obtain g' where g': "roundCalledOn g e = Some g'"
    by (auto simp: flushes_def split: event.splits option.splits)
  have "validLogs g" using a reachable_validLogs by blast
  with roundCalledOn_valid[OF g'] have "\<forall>u\<in>set (ActList g @ [humanInput g']). validInput u"
    by (simp add: validLogs_def)
  moreover from a g' have "codeViewerOutput (step G g e)
      = logToNotepad (notepadMessage (ActList g @ [humanInput g']) (isComputer (player1 g)))
          (codeViewerOutput g)"
    by (simp add: step_codeViewerOutput)
  ultimately show "\<exists>g'. roundCalledOn g e = Some g'
           \<and> (\<forall>u\<in>set (ActList g @ [humanInput g']). validInput u)
           \<and> codeViewerOutput (step G g e)
               = logToNotepad (notepadMessage (ActList g @ [humanInput g']) (isComputer (player1 g)))
                   (codeViewerOutput g)"
    using g' by blast
next
  assume "\<not> flushes g e"
  then show "codeViewerOutput (step G g e) = codeViewerOutput g"
    by (simp add: step_codeViewerOutput split: option.splits)
qed

theorem C5_witness:
  "concatListAsString (encodeActList exampleLog 1) = CHR ''-'' # notepadMessage exampleLog False
   \<and> notepadMessage exampleLog False = ''L/3-H/2''
   \<and> flushes (run 216 exampleGame twoTicksLeft) (Frame (ballAt True 100))
   \<and> codeViewerOutput (step 216 (run 216 exampleGame twoTicksLeft) (Frame (ballAt True 100)))
       = Some ''L/3''"
proof -
  have v: "\<forall>u\<in>set exampleLog. validInput u" by (simp add: exampleLog_def validInput_def)
  have ne: "exampleLog \<noteq> []" by (simp add: exampleLog_def)
  have r: "reachable 216 (run 216 exampleGame twoTicksLeft)"
    unfolding exampleGame_def by (rule reachable_run[OF reachable_new])
  have f: "flushes (run 216 exampleGame twoTicksLeft) (Frame (ballAt True 100))" by code_simp
  have c: "codeViewerOutput (step 216 (run 216 exampleGame twoTicksLeft) (Frame (ballAt True 100)))
       = Some ''L/3''" by code_simp
  have m: "notepadMessage exampleLog False = ''L/3-H/2''" by code_simp
  note T = C5_presented_code[of exampleLog False 216 "run 216 exampleGame twoTicksLeft"
      "Frame (ballAt True 100)"]
  from T v ne have "concatListAsString (encodeActList exampleLog (if False then 2 else 1))
      = CHR ''-'' # notepadMessage exampleLog False" by blast
  then have d: "concatListAsString (encodeActList exampleLog 1)
      = CHR ''-'' # notepadMessage exampleLog False" by simp
  from T r f have "\<exists>g'. roundCalledOn (run 216 exampleGame twoTicksLeft) (Frame (ballAt True 100)) = Some g'
      \<and> (\<forall>u\<in>set (ActList (run 216 exampleGame twoTicksLeft) @ [humanInput g']). validInput u)
      \<and> codeViewerOutput (step 216 (run 216 exampleGame twoTicksLeft) (Frame (ballAt True 100)))
          = logToNotepad
              (notepadMessage (ActList (run 216 exampleGame twoTicksLeft) @ [humanInput g'])
                 (isComputer (player1 (run 216 exampleGame twoTicksLeft))))
              (codeViewerOutput (run 216 exampleGame twoTicksLeft))"
    by blast
  with d m f c show ?thesis by blast
qed

text \<open>
  Claim C6. On every round tick of a running game exactly one snapshot is appended to
  \<^verbatim>\<open>ActList\<close>: player 2's snapshot when player 1 is the computer and player 1's otherwise,
  which is the snapshot of a player whose \<^verbatim>\<open>isComputer\<close> is false. When the ball touches the
  ground in that tick the log, with that snapshot as its last element, is what is written
  to the console and encoded, and the log is then emptied. So the length of the log
  whenever it is flushed equals the number of round ticks since the log was last emptied,
  and at every moment the log's length is that number.
\<close>

theorem C6_round_tick_appends_one:
  "(reachable G g \<and> roundCalledOn g (Frame engine) = Some g' \<longrightarrow>
      \<not> isComputer (if isComputer (player1 g') then player2 g' else player1 g')
      \<and> humanInput g' =
          (if isComputer (player1 g') then player2Input (mergeKeyboards g')
           else player1Input (mergeKeyboards g'))
      \<and> (if returned (engineResultIn engine g')
         then consoleLog (step G g (Frame engine)) = consoleLog g @ [ActList g @ [humanInput g']]
              \<and> ActList (step G g (Frame engine)) = []
         else ActList (step G g (Frame engine)) = ActList g @ [humanInput g']
              \<and> consoleLog (step G g (Frame engine)) = consoleLog g))
   \<and> (countTicks G (PikachuVolleyball_new p1 p2 b super page) 0 [] es = (h, n, atFlush) \<longrightarrow>
        length (ActList h) = n \<and> map length (consoleLog h) = atFlush)"
proof (intro conjI impI)
  assume a: "reachable G g \<and> roundCalledOn g (Frame engine) = Some g'"
  then have hc: "humanChosen g" using reachable_humanChosen by blast
  from a have rc: "roundCalledOn g (Frame engine) = Some g'" by simp
  note e = round_tick_effect[OF hc rc]
  from e(1) show "\<not> isComputer (if isComputer (player1 g') then player2 g' else player1 g')"
    by auto
  show "humanInput g' =
          (if isComputer (player1 g') then player2Input (mergeKeyboards g')
           else player1Input (mergeKeyboards g'))"
    by (simp add: humanInput_def)
  show "if returned (engineResultIn engine g')
         then consoleLog (step G g (Frame engine)) = consoleLog g @ [ActList g @ [humanInput g']]
              \<and> ActList (step G g (Frame engine)) = []
         else ActList (step G g (Frame engine)) = ActList g @ [humanInput g']
              \<and> consoleLog (step G g (Frame engine)) = consoleLog g"
    using e(3) e(4) by simp
next
  assume c: "countTicks G (PikachuVolleyball_new p1 p2 b super page) 0 [] es = (h, n, atFlush)"
  have "length (ActList h) = n \<and> map length (consoleLog h) = atFlush"
    by (rule countTicks_lengths[OF reachable_new _ _ c]) (simp_all add: PikachuVolleyball_new_def)
  then show "length (ActList h) = n" "map length (consoleLog h) = atFlush" by simp_all
qed

theorem C6_witness:
  "ActList (run 216 exampleGame twoTicksLeft)
     = [\<lparr>xDirection = -1, yDirection = 0, powerHit = 0\<rparr>,
        \<lparr>xDirection = -1, yDirection = 0, powerHit = 0\<rparr>]
   \<and> consoleLog (step 216 (run 216 exampleGame twoTicksLeft) (Frame (ballAt True 100)))
     = [[\<lparr>xDirection = -1, yDirection = 0, powerHit = 0\<rparr>,
         \<lparr>xDirection = -1, yDirection = 0, powerHit = 0\<rparr>,
         \<lparr>xDirection = -1, yDirection = 0, powerHit = 0\<rparr>]]
   \<and> ActList (step 216 (run 216 exampleGame twoTicksLeft) (Frame (ballAt True 100))) = []
   \<and> snd (countTicks 216 exampleGame 0 [] threeTicksTouch) = (0, [3])
   \<and> map length (consoleLog (fst (countTicks 216 exampleGame 0 [] threeTicksTouch))) = [3]"
proof -
  have r: "reachable 216 (run 216 exampleGame twoTicksLeft)"
    unfolding exampleGame_def by (rule reachable_run[OF reachable_new])
  have rc: "roundCalledOn (run 216 exampleGame twoTicksLeft) (Frame (ballAt True 100))
      = Some (latchInputs (run 216 exampleGame twoTicksLeft))" by code_simp
  have t: "returned (engineResultIn (ballAt True 100) (latchInputs (run 216 exampleGame twoTicksLeft)))"
    by (simp add: engineResultIn_def ballAt_def)
  have a: "ActList (run 216 exampleGame twoTicksLeft)
     = [\<lparr>xDirection = -1, yDirection = 0, powerHit = 0\<rparr>,
        \<lparr>xDirection = -1, yDirection = 0, powerHit = 0\<rparr>]" by code_simp
  have hi: "humanInput (latchInputs (run 216 exampleGame twoTicksLeft))
     = \<lparr>xDirection = -1, yDirection = 0, powerHit = 0\<rparr>" by code_simp
  have cl: "consoleLog (run 216 exampleGame twoTicksLeft) = []" by code_simp
  have c3: "snd (countTicks 216 exampleGame 0 [] threeTicksTouch) = (0, [3])" by code_simp
  have p: "countTicks 216 exampleGame 0 [] threeTicksTouch
      = (fst (countTicks 216 exampleGame 0 [] threeTicksTouch),
         fst (snd (countTicks 216 exampleGame 0 [] threeTicksTouch)),
         snd (snd (countTicks 216 exampleGame 0 [] threeTicksTouch)))" by simp
  note T = C6_round_tick_appends_one[of 216 "run 216 exampleGame twoTicksLeft" "ballAt True 100"
      "latchInputs (run 216 exampleGame twoTicksLeft)" newPlayer newPlayer
      "\<lparr>ball_x = 56, punchEffectX = 0\<rparr>" "\<lparr>xDirection = 0, yDirection = 0, powerHit = 0\<rparr>" "Some []"
      threeTicksTouch "fst (countTicks 216 exampleGame 0 [] threeTicksTouch)"
      "fst (snd (countTicks 216 exampleGame 0 [] threeTicksTouch))"
      "snd (snd (countTicks 216 exampleGame 0 [] threeTicksTouch))", folded exampleGame_def]
  from T r rc have "if returned (engineResultIn (ballAt True 100) (latchInputs (run 216 exampleGame twoTicksLeft)))
         then consoleLog (step 216 (run 216 exampleGame twoTicksLeft) (Frame (ballAt True 100)))
                = consoleLog (run 216 exampleGame twoTicksLeft)
                    @ [ActList (run 216 exampleGame twoTicksLeft)
                       @ [humanInput (latchInputs (run 216 exampleGame twoTicksLeft))]]
              \<and> ActList (step 216 (run 216 exampleGame twoTicksLeft) (Frame (ballAt True 100))) = []
         else ActList (step 216 (run 216 exampleGame twoTicksLeft) (Frame (ballAt True 100)))
                = ActList (run 216 exampleGame twoTicksLeft)
                    @ [humanInput (latchInputs (run 216 exampleGame twoTicksLeft))]
              \<and> consoleLog (step 216 (run 216 exampleGame twoTicksLeft) (Frame (ballAt True 100)))
                = consoleLog (run 216 exampleGame twoTicksLeft)"
    by blast
  then have one: "consoleLog (step 216 (run 216 exampleGame twoTicksLeft) (Frame (ballAt True 100)))
       = [[\<lparr>xDirection = -1, yDirection = 0, powerHit = 0\<rparr>,
           \<lparr>xDirection = -1, yDirection = 0, powerHit = 0\<rparr>,
           \<lparr>xDirection = -1, yDirection = 0, powerHit = 0\<rparr>]]
     \<and> ActList (step 216 (run 216 exampleGame twoTicksLeft) (Frame (ballAt True 100))) = []"
    unfolding if_P[OF t] a hi cl by simp
  from T p have "map length (consoleLog (fst (countTicks 216 exampleGame 0 [] threeTicksTouch)))
      = snd (snd (countTicks 216 exampleGame 0 [] threeTicksTouch))"
    by blast
  then have two: "map length (consoleLog (fst (countTicks 216 exampleGame 0 [] threeTicksTouch))) = [3]"
    unfolding c3 by simp
  from a one c3 two show ?thesis by blast
qed

text \<open>
  Claim C7, as the specification states it, fails: in a round that has not ended the ball
  touches the ground at \<open>x = 100\<close>, left of the centre at 216; the round ends and player 2
  is marked to serve, but player 2's score is 0 before and after, and when the next round
  is set up the ball is on the left, at \<open>x = 56\<close>, where the human player 1 serves.
\<close>

theorem C7_counterexample:
  "state (run 216 exampleGame twoTicksLeft) = Round
   \<and> \<not> roundEnded (run 216 exampleGame twoTicksLeft)
   \<and> scores1 (run 216 exampleGame twoTicksLeft) = 0
   \<and> punchEffectX (ball (run 216 exampleGame threeTicksTouch)) = 100
   \<and> roundEnded (run 216 exampleGame threeTicksTouch)
   \<and> isPlayer2Serve (run 216 exampleGame threeTicksTouch)
   \<and> scores1 (run 216 exampleGame threeTicksTouch) = 0
   \<and> state (run 216 exampleGame nextRoundReady) = BeforeStartOfNextRound
   \<and> isPlayer2Serve (run 216 exampleGame nextRoundReady)
   \<and> scores1 (run 216 exampleGame nextRoundReady) = 0
   \<and> ball_x (ball (run 216 exampleGame nextRoundReady)) = 56"
  by code_simp

text \<open>
  Claim C7, amended. When the ball touches the ground in a round tick outside practice
  mode, with neither the round nor the game ended, \<^verbatim>\<open>isPlayer2Serve\<close> becomes true when
  \<^verbatim>\<open>punchEffectX\<close> is strictly left of \<^verbatim>\<open>GROUND_HALF_WIDTH\<close> and false otherwise, so a ball
  exactly at the centre counts as one on the right; the round is marked ended. No score
  changes in \<^verbatim>\<open>round\<close>, and both scores are 0 in every state the game reaches. The ball of
  the next round is placed at 376 when player 1 is the computer and at 56 otherwise.
\<close>

theorem C7_ground_touch_marks_server:
  "(\<not> (isComputer (player1 g) \<and> isComputer (player2 g) \<and> pressedPowerHit g)
      \<and> returned (engineResultIn engine g)
      \<and> \<not> isPracticeMode g \<and> \<not> roundEnded g \<and> \<not> gameEnded g \<longrightarrow>
        isPlayer2Serve (round G engine g) = (punchEffectX (ballAfter (engineResultIn engine g)) < G)
        \<and> roundEnded (round G engine g))
   \<and> scores0 (round G engine g) = scores0 g
   \<and> scores1 (round G engine g) = scores1 g
   \<and> (reachable G h \<longrightarrow> scores0 h = 0 \<and> scores1 h = 0)
   \<and> (frameCounter h = 0 \<longrightarrow>
        ball_x (ball (beforeStartOfNextRound h)) = (if isComputer (player1 h) then 376 else 56))"
proof (intro conjI impI)
  assume a: "\<not> (isComputer (player1 g) \<and> isComputer (player2 g) \<and> pressedPowerHit g)
      \<and> returned (engineResultIn engine g)
      \<and> \<not> isPracticeMode g \<and> \<not> roundEnded g \<and> \<not> gameEnded g"
  then have ne: "\<not> (isComputer (player1 g) \<and> isComputer (player2 g) \<and> pressedPowerHit g)"
    and t: "returned (engineResultIn engine g)"
    and f: "\<not> isPracticeMode g" "\<not> roundEnded g" "\<not> gameEnded g" by blast+
  show "isPlayer2Serve (round G engine g) = (punchEffectX (ballAfter (engineResultIn engine g)) < G)"
    by (rule round_scoring(1)[OF ne t f])
  show "roundEnded (round G engine g)" by (rule round_scoring(2)[OF ne t f])
next
  show "scores0 (round G engine g) = scores0 g" by (rule round_scores)
  show "scores1 (round G engine g) = scores1 g" by (rule round_scores)
next
  assume "reachable G h"
  then have "scores0 h = 0 \<and> scores1 h = 0" by (rule reachable_scores_zero)
  then show "scores0 h = 0" "scores1 h = 0" by simp_all
next
  assume "frameCounter h = 0"
  then show "ball_x (ball (beforeStartOfNextRound h)) = (if isComputer (player1 h) then 376 else 56)"
    by (simp add: beforeStartOfNextRound_def placeBall_def Let_def)
qed

theorem C7_witness:
  "isPlayer2Serve (round 216 (ballAt True 100) (run 216 exampleGame twoTicksLeft))
   \<and> \<not> isPlayer2Serve (round 216 (ballAt True 216) (run 216 exampleGame twoTicksLeft))
   \<and> \<not> isPlayer2Serve (round 216 (ballAt True 300) (run 216 exampleGame twoTicksLeft))
   \<and> roundEnded (round 216 (ballAt True 100) (run 216 exampleGame twoTicksLeft))
   \<and> scores1 (round 216 (ballAt True 100) (run 216 exampleGame twoTicksLeft)) = 0
   \<and> frameCounter (run 216 exampleGame twoTicksLeft) = 0
   \<and> ball_x (ball (beforeStartOfNextRound (run 216 exampleGame twoTicksLeft))) = 56"
proof -
  have r: "reachable 216 (run 216 exampleGame twoTicksLeft)"
    unfolding exampleGame_def by (rule reachable_run[OF reachable_new])
  have p: "\<not> (isComputer (player1 (run 216 exampleGame twoTicksLeft))
        \<and> isComputer (player2 (run 216 exampleGame twoTicksLeft))
        \<and> pressedPowerHit (run 216 exampleGame twoTicksLeft))"
    "\<not> isPracticeMode (run 216 exampleGame twoTicksLeft)"
    "\<not> roundEnded (run 216 exampleGame twoTicksLeft)"
    "\<not> gameEnded (run 216 exampleGame twoTicksLeft)"
    "frameCounter (run 216 exampleGame twoTicksLeft) = 0"
    "\<not> isComputer (player1 (run 216 exampleGame twoTicksLeft))"
    by code_simp+
  have t: "returned (engineResultIn (ballAt True x) (run 216 exampleGame twoTicksLeft))"
    "punchEffectX (ballAfter (engineResultIn (ballAt True x) (run 216 exampleGame twoTicksLeft))) = x"
    for x by (simp_all add: engineResultIn_def ballAt_def)
  note T = C7_ground_touch_marks_server[of "run 216 exampleGame twoTicksLeft" _ 216
      "run 216 exampleGame twoTicksLeft"]
  from T[of "ballAt True 100"] p t r
  have a: "isPlayer2Serve (round 216 (ballAt True 100) (run 216 exampleGame twoTicksLeft))
     \<and> roundEnded (round 216 (ballAt True 100) (run 216 exampleGame twoTicksLeft))
     \<and> scores1 (round 216 (ballAt True 100) (run 216 exampleGame twoTicksLeft)) = 0
     \<and> ball_x (ball (beforeStartOfNextRound (run 216 exampleGame twoTicksLeft))) = 56"
    by simp
  from T[of "ballAt True 216"] p t
  have b: "\<not> isPlayer2Serve (round 216 (ballAt True 216) (run 216 exampleGame twoTicksLeft))"
    by simp
  from T[of "ballAt True 300"] p t
  have c: "\<not> isPlayer2Serve (round 216 (ballAt True 300) (run 216 exampleGame twoTicksLeft))"
    by simp
  from a b c p(5) show ?thesis by blast
qed

text \<open>
  Claim C8. When the ball touches the ground in a round tick outside practice mode, with
  neither the round nor the game ended, and the score of the side the touch counts for
  (player 2 when \<^verbatim>\<open>punchEffectX\<close> is left of the centre, player 1 otherwise) is at least the
  winning score, the game ends: \<^verbatim>\<open>gameEnded\<close> becomes true for the game and both players,
  and exactly that side's player has \<^verbatim>\<open>isWinner\<close> true; without such a score the game does
  not end in that tick. No event leads from a state in which an ended game has exactly
  one winner to a state in which it has not, and every state the game reaches is of that
  kind.
\<close>

theorem C8_match_end_one_winner:
  "(\<not> (isComputer (player1 g) \<and> isComputer (player2 g) \<and> pressedPowerHit g)
      \<and> returned (engineResultIn engine g)
      \<and> \<not> isPracticeMode g \<and> \<not> roundEnded g \<and> \<not> gameEnded g \<longrightarrow>
        (gameEnded (round G engine g) \<longleftrightarrow>
           (if punchEffectX (ballAfter (engineResultIn engine g)) < G
            then winningScore g \<le> scores1 g else winningScore g \<le> scores0 g))
        \<and> (gameEnded (round G engine g) \<longrightarrow>
             isWinner (player1 (round G engine g))
               = (\<not> punchEffectX (ballAfter (engineResultIn engine g)) < G)
             \<and> isWinner (player2 (round G engine g))
               = (punchEffectX (ballAfter (engineResultIn engine g)) < G)
             \<and> Player.gameEnded (player1 (round G engine g))
             \<and> Player.gameEnded (player2 (round G engine g))))
   \<and> (tieFree h \<longrightarrow> tieFree (step G h e))
   \<and> (reachable G h \<longrightarrow> tieFree h)"
proof (intro conjI impI)
  assume a: "\<not> (isComputer (player1 g) \<and> isComputer (player2 g) \<and> pressedPowerHit g)
      \<and> returned (engineResultIn engine g)
      \<and> \<not> isPracticeMode g \<and> \<not> roundEnded g \<and> \<not> gameEnded g"
  then have ne: "\<not> (isComputer (player1 g) \<and> isComputer (player2 g) \<and> pressedPowerHit g)"
    and t: "returned (engineResultIn engine g)"
    and f: "\<not> isPracticeMode g" "\<not> roundEnded g" "\<not> gameEnded g" by blast+
  show "gameEnded (round G engine g) \<longleftrightarrow>
           (if punchEffectX (ballAfter (engineResultIn engine g)) < G
            then winningScore g \<le> scores1 g else winningScore g \<le> scores0 g)"
    by (rule round_scoring(3)[OF ne t f])
  assume "gameEnded (round G engine g)"
  from round_scoring(4)[OF ne t f this]
  show "isWinner (player1 (round G engine g))
               = (\<not> punchEffectX (ballAfter (engineResultIn engine g)) < G)"
    "isWinner (player2 (round G engine g))
               = (punchEffectX (ballAfter (engineResultIn engine g)) < G)"
    "Player.gameEnded (player1 (round G engine g))"
    "Player.gameEnded (player2 (round G engine g))"
    by blast+
next
  assume "tieFree h"
  then show "tieFree (step G h e)" by (rule step_tieFree)
next
  assume "reachable G h"
  then show "tieFree h" by (rule reachable_tieFree)
qed

theorem C8_witness:
  "scores1 matchPoint = 15 \<and> winningScore matchPoint = 15
   \<and> \<not> gameEnded matchPoint
   \<and> gameEnded (round 216 (ballAt True 100) matchPoint)
   \<and> \<not> isWinner (player1 (round 216 (ballAt True 100) matchPoint))
   \<and> isWinner (player2 (round 216 (ballAt True 100) matchPoint))
   \<and> \<not> gameEnded (round 216 (ballAt True 300) matchPoint)
   \<and> \<not> gameEnded (step 216 (run 216 exampleGame twoTicksLeft) (Frame (ballAt True 100)))"
proof -
  have r: "reachable 216 (run 216 exampleGame twoTicksLeft)"
    unfolding exampleGame_def by (rule reachable_run[OF reachable_new])
  have p: "\<not> (isComputer (player1 matchPoint) \<and> isComputer (player2 matchPoint)
        \<and> pressedPowerHit matchPoint)"
    "\<not> isPracticeMode matchPoint" "\<not> roundEnded matchPoint" "\<not> gameEnded matchPoint"
    "scores1 matchPoint = 15" "winningScore matchPoint = 15" "scores0 matchPoint = 0"
    by code_simp+
  have t: "returned (engineResultIn (ballAt True x) matchPoint)"
    "punchEffectX (ballAfter (engineResultIn (ballAt True x) matchPoint)) = x"
    for x by (simp_all add: engineResultIn_def ballAt_def)
  have n: "\<not> gameEnded (step 216 (run 216 exampleGame twoTicksLeft) (Frame (ballAt True 100)))"
    by code_simp
  note T = C8_match_end_one_winner[of matchPoint _ 216 "run 216 exampleGame twoTicksLeft"
      "Frame (ballAt True 100)"]
  from T[of "ballAt True 100"] p t
  have a: "gameEnded (round 216 (ballAt True 100) matchPoint)
     \<and> \<not> isWinner (player1 (round 216 (ballAt True 100) matchPoint))
     \<and> isWinner (player2 (round 216 (ballAt True 100) matchPoint))"
    by simp
  from T[of "ballAt True 300"] p t
  have b: "\<not> gameEnded (round 216 (ballAt True 300) matchPoint)" by simp
  from T[of "ballAt True 100"] r
  have "tieFree (run 216 exampleGame twoTicksLeft)" by blast
  with T[of "ballAt True 100"]
  have "tieFree (step 216 (run 216 exampleGame twoTicksLeft) (Frame (ballAt True 100)))" by blast
  with a b n p(4,5,6) show ?thesis by blast
qed

text \<open>
  Claim C9. Over every sequence of key states, one per call of \<^verbatim>\<open>getInput\<close>, the
  \<^verbatim>\<open>powerHit\<close> a keyboard reports is 1 on exactly the calls at which the power-hit key is
  down and was not down at the previous call, and 0 on all others, however long the key
  is held. At the first call the previous state is \<^verbatim>\<open>powerHitKeyIsDownPrevious\<close>, which the
  constructor sets to false.
\<close>

theorem C9_powerHit_is_edge:
  "(i < length frames \<longrightarrow>
      powerHit (pollKeyboard kb frames ! i) =
        (if powerHitPressed (holdKeys kb (frames ! i))
            \<and> \<not> (if i = 0 then powerHitKeyIsDownPrevious kb
                   else powerHitPressed (holdKeys kb (frames ! (i - 1))))
         then 1 else 0))
   \<and> length (pollKeyboard kb frames) = length frames
   \<and> \<not> powerHitKeyIsDownPrevious (PikaKeyboard_new super left right up down powerHitKey extra)"
  using pollKeyboard_powerHit[of i frames kb] pollKeyboard_length[of kb frames]
  by (simp add: PikaKeyboard_new_def)

theorem C9_witness:
  "map powerHit (pollKeyboard keyboard1
      [onlyPowerHit True, onlyPowerHit True, onlyPowerHit True, onlyPowerHit False,
       onlyPowerHit True]) = [1, 0, 0, 0, 1]
   \<and> powerHit (pollKeyboard keyboard1
      [onlyPowerHit True, onlyPowerHit True, onlyPowerHit True, onlyPowerHit False,
       onlyPowerHit True] ! 2) = 0"
proof -
  have m: "map powerHit (pollKeyboard keyboard1
      [onlyPowerHit True, onlyPowerHit True, onlyPowerHit True, onlyPowerHit False,
       onlyPowerHit True]) = [1, 0, 0, 0, 1]" by code_simp
  have l: "(2::nat) < length [onlyPowerHit True, onlyPowerHit True, onlyPowerHit True,
      onlyPowerHit False, onlyPowerHit True]" by simp
  have h: "powerHitPressed (holdKeys keyboard1 (onlyPowerHit True))" by code_simp
  from C9_powerHit_is_edge[of 2 "[onlyPowerHit True, onlyPowerHit True, onlyPowerHit True,
      onlyPowerHit False, onlyPowerHit True]" keyboard1] l h
  have "powerHit (pollKeyboard keyboard1
      [onlyPowerHit True, onlyPowerHit True, onlyPowerHit True, onlyPowerHit False,
       onlyPowerHit True] ! 2) = 0" by simp
  with m show ?thesis by blast
qed

text \<open>
  Claim C10. When exactly one player is the computer and both keyboards report a power
  hit of 0 or 1, the snapshot of the human side is a merge of both keyboards: each
  direction is keyboard 1's when that is not zero and keyboard 2's otherwise, and the
  power hit is 1 exactly when it is 1 on either keyboard. That merged snapshot is the one
  \<^verbatim>\<open>round\<close> appends to the log, and the human side's keyboard in the pair handed to the
  physics engine carries the same three values; \<^verbatim>\<open>round\<close> depends on the engine only
  through what it does with that merged pair. Whenever the game loop calls \<^verbatim>\<open>round\<close>, both
  keyboards do report a power hit of 0 or 1.
\<close>

theorem C10_human_input_is_merged:
  assumes "isComputer (player1 g) \<noteq> isComputer (player2 g)"
    and "powerHit (keyboardArray0 g) \<in> {0, 1}" and "powerHit (keyboardArray1 g) \<in> {0, 1}"
  shows "xDirection (humanInput g) =
      (if xDirection (keyboardArray0 g) \<noteq> 0 then xDirection (keyboardArray0 g)
       else xDirection (keyboardArray1 g))
    \<and> yDirection (humanInput g) =
      (if yDirection (keyboardArray0 g) \<noteq> 0 then yDirection (keyboardArray0 g)
       else yDirection (keyboardArray1 g))
    \<and> powerHit (humanInput g) =
      (if powerHit (keyboardArray0 g) = 1 \<or> powerHit (keyboardArray1 g) = 1 then 1 else 0)
    \<and> xDirection (if isComputer (player1 g) then keyboardArray1 (mergeKeyboards g)
                   else keyboardArray0 (mergeKeyboards g)) = xDirection (humanInput g)
    \<and> yDirection (if isComputer (player1 g) then keyboardArray1 (mergeKeyboards g)
                   else keyboardArray0 (mergeKeyboards g)) = yDirection (humanInput g)
    \<and> powerHit (if isComputer (player1 g) then keyboardArray1 (mergeKeyboards g)
                 else keyboardArray0 (mergeKeyboards g)) = powerHit (humanInput g)
    \<and> ActList (round G engine g) =
      (if returned (engine (keyboardArray0 (mergeKeyboards g)) (keyboardArray1 (mergeKeyboards g)))
       then [] else ActList g @ [humanInput g])
    \<and> consoleLog (round G engine g) =
      (if returned (engine (keyboardArray0 (mergeKeyboards g)) (keyboardArray1 (mergeKeyboards g)))
       then consoleLog g @ [ActList g @ [humanInput g]] else consoleLog g)
    \<and> (engine' (keyboardArray0 (mergeKeyboards g)) (keyboardArray1 (mergeKeyboards g))
          = engine (keyboardArray0 (mergeKeyboards g)) (keyboardArray1 (mergeKeyboards g))
        \<longrightarrow> round G engine' g = round G engine g)
    \<and> (roundCalledOn h (Frame engine) = Some h' \<longrightarrow>
          powerHit (keyboardArray0 h') \<in> {0, 1} \<and> powerHit (keyboardArray1 h') \<in> {0, 1})"
proof -
  from assms(1) have ne: "\<not> (isComputer (player1 g) \<and> isComputer (player2 g) \<and> pressedPowerHit g)"
    by blast
  have x: "xDirection (humanInput g) =
      (if xDirection (keyboardArray0 g) \<noteq> 0 then xDirection (keyboardArray0 g)
       else xDirection (keyboardArray1 g))"
    using assms(1)
    by (auto simp add: humanInput_def player1Input_def player2Input_def mergeKeyboards_fields logicalOr_def)
  have y: "yDirection (humanInput g) =
      (if yDirection (keyboardArray0 g) \<noteq> 0 then yDirection (keyboardArray0 g)
       else yDirection (keyboardArray1 g))"
    using assms(1)
    by (auto simp add: humanInput_def player1Input_def player2Input_def mergeKeyboards_fields logicalOr_def)
  have "powerHit (humanInput g) = logicalOr (powerHit (keyboardArray0 g)) (powerHit (keyboardArray1 g))"
    using assms(1)
    by (auto simp add: humanInput_def player1Input_def player2Input_def mergeKeyboards_fields)
  then have p: "powerHit (humanInput g) =
      (if powerHit (keyboardArray0 g) = 1 \<or> powerHit (keyboardArray1 g) = 1 then 1 else 0)"
    using logicalOr_bit[OF assms(2) assms(3)] by simp
  have k: "xDirection (if isComputer (player1 g) then keyboardArray1 (mergeKeyboards g)
                   else keyboardArray0 (mergeKeyboards g)) = xDirection (humanInput g)"
    "yDirection (if isComputer (player1 g) then keyboardArray1 (mergeKeyboards g)
                   else keyboardArray0 (mergeKeyboards g)) = yDirection (humanInput g)"
    "powerHit (if isComputer (player1 g) then keyboardArray1 (mergeKeyboards g)
                 else keyboardArray0 (mergeKeyboards g)) = powerHit (humanInput g)"
    by (simp_all add: humanInput_def player1Input_def player2Input_def)
  have a: "ActList (round G engine g) =
      (if returned (engine (keyboardArray0 (mergeKeyboards g)) (keyboardArray1 (mergeKeyboards g)))
       then [] else ActList g @ [humanInput g])"
    using round_ActList[OF ne, of G engine] by (simp add: engineResultIn_def)
  have c: "consoleLog (round G engine g) =
      (if returned (engine (keyboardArray0 (mergeKeyboards g)) (keyboardArray1 (mergeKeyboards g)))
       then consoleLog g @ [ActList g @ [humanInput g]] else consoleLog g)"
    using round_consoleLog[OF ne, of G engine] by (simp add: engineResultIn_def)
  have e: "engine' (keyboardArray0 (mergeKeyboards g)) (keyboardArray1 (mergeKeyboards g))
          = engine (keyboardArray0 (mergeKeyboards g)) (keyboardArray1 (mergeKeyboards g))
        \<longrightarrow> round G engine' g = round G engine g"
    using round_engine_cong[of engine' g engine G] by blast
  have l: "roundCalledOn h (Frame engine) = Some h' \<longrightarrow>
          powerHit (keyboardArray0 h') \<in> {0, 1} \<and> powerHit (keyboardArray1 h') \<in> {0, 1}"
  proof
    assume "roundCalledOn h (Frame engine) = Some h'"
    then have "gameLoopHead h = Inr h'" by (auto elim: roundCalledOn_Frame)
    from gameLoopHead_keeps(1)[OF this] getInput_valid(3)[of "keyboardArray0 h"]
      getInput_valid(3)[of "keyboardArray1 h"]
    show "powerHit (keyboardArray0 h') \<in> {0, 1} \<and> powerHit (keyboardArray1 h') \<in> {0, 1}"
      by simp
  qed
  from x y p k a c e l show ?thesis by (intro conjI)
qed

theorem C10_witness:
  "\<not> isComputer (player1 leftArrowRound) \<and> isComputer (player2 leftArrowRound)
   \<and> xDirection (keyboardArray0 leftArrowRound) = 0
   \<and> xDirection (keyboardArray1 leftArrowRound) = -1
   \<and> humanInput leftArrowRound = \<lparr>xDirection = -1, yDirection = 0, powerHit = 0\<rparr>
   \<and> ActList (round 216 (ballAt False 56) leftArrowRound)
       = [\<lparr>xDirection = -1, yDirection = 0, powerHit = 0\<rparr>]"
proof -
  have p: "\<not> isComputer (player1 leftArrowRound)" "isComputer (player2 leftArrowRound)"
    "xDirection (keyboardArray0 leftArrowRound) = 0"
    "xDirection (keyboardArray1 leftArrowRound) = -1"
    "powerHit (keyboardArray0 leftArrowRound) = 0"
    "powerHit (keyboardArray1 leftArrowRound) = 0"
    "ActList leftArrowRound = []"
    "humanInput leftArrowRound = \<lparr>xDirection = -1, yDirection = 0, powerHit = 0\<rparr>"
    by code_simp+
  have t: "\<not> returned (ballAt False 56 k0 k1)" for k0 k1 by (simp add: ballAt_def)
  from C10_human_input_is_merged[of leftArrowRound 216 "ballAt False 56" "ballAt False 56"
      leftArrowRound leftArrowRound] p t
  have "xDirection (humanInput leftArrowRound) = -1
    \<and> ActList (round 216 (ballAt False 56) leftArrowRound)
       = [\<lparr>xDirection = -1, yDirection = 0, powerHit = 0\<rparr>]"
    by simp
  with p show ?thesis by blast
qed

end
